theory Spec2Isabelle
  imports Complex_Main "HOL-Library.Multiset"
begin

section \<open>Python values and library functions\<close>

text \<open>
  A Python float is a real number, an infinity or NaN, with the arithmetic and the
  comparisons of IEEE 754 on those: a comparison with NaN is false, infinity minus infinity
  and zero times infinity are NaN. Rounding, overflow of a finite result and the sign of
  zero are not represented.
\<close>

datatype pyfloat = Finite real | PosInf | NegInf | NaN

fun flt :: "pyfloat \<Rightarrow> pyfloat \<Rightarrow> bool" where
  "flt (Finite a) (Finite b) = (a < b)"
| "flt (Finite a) PosInf = True"
| "flt NegInf (Finite b) = True"
| "flt NegInf PosInf = True"
| "flt _ _ = False"

definition fgt :: "pyfloat \<Rightarrow> pyfloat \<Rightarrow> bool" where
  "fgt a b = flt b a"

definition fle :: "pyfloat \<Rightarrow> pyfloat \<Rightarrow> bool" where
  "fle a b = (a \<noteq> NaN \<and> b \<noteq> NaN \<and> \<not> flt b a)"

fun fneg :: "pyfloat \<Rightarrow> pyfloat" where
  "fneg (Finite a) = Finite (- a)"
| "fneg PosInf = NegInf"
| "fneg NegInf = PosInf"
| "fneg NaN = NaN"

fun fadd :: "pyfloat \<Rightarrow> pyfloat \<Rightarrow> pyfloat" where
  "fadd (Finite a) (Finite b) = Finite (a + b)"
| "fadd NaN _ = NaN"
| "fadd _ NaN = NaN"
| "fadd PosInf NegInf = NaN"
| "fadd NegInf PosInf = NaN"
| "fadd PosInf _ = PosInf"
| "fadd _ PosInf = PosInf"
| "fadd NegInf _ = NegInf"
| "fadd _ NegInf = NegInf"

definition fsub :: "pyfloat \<Rightarrow> pyfloat \<Rightarrow> pyfloat" where
  "fsub a b = fadd a (fneg b)"

fun fmul :: "pyfloat \<Rightarrow> pyfloat \<Rightarrow> pyfloat" where
  "fmul (Finite a) (Finite b) = Finite (a * b)"
| "fmul NaN _ = NaN"
| "fmul _ NaN = NaN"
| "fmul (Finite a) PosInf = (if a = 0 then NaN else if a > 0 then PosInf else NegInf)"
| "fmul (Finite a) NegInf = (if a = 0 then NaN else if a > 0 then NegInf else PosInf)"
| "fmul PosInf (Finite b) = (if b = 0 then NaN else if b > 0 then PosInf else NegInf)"
| "fmul NegInf (Finite b) = (if b = 0 then NaN else if b > 0 then NegInf else PosInf)"
| "fmul PosInf PosInf = PosInf"
| "fmul PosInf NegInf = NegInf"
| "fmul NegInf PosInf = NegInf"
| "fmul NegInf NegInf = PosInf"

text \<open>Division by a divisor that is not zero; where the divisor can be zero the caller
  tests it first, as the source does or as \<^verbatim>\<open>ZeroDivisionError\<close> requires.\<close>

fun fdiv :: "pyfloat \<Rightarrow> pyfloat \<Rightarrow> pyfloat" where
  "fdiv (Finite a) (Finite b) = Finite (a / b)"
| "fdiv NaN _ = NaN"
| "fdiv _ NaN = NaN"
| "fdiv (Finite a) _ = Finite 0"
| "fdiv PosInf (Finite b) = (if b < 0 then NegInf else PosInf)"
| "fdiv NegInf (Finite b) = (if b < 0 then PosInf else NegInf)"
| "fdiv _ _ = NaN"

text \<open>
  A raw field of a row is whatever \<^verbatim>\<open>csv.DictReader\<close> or a caller of
  \<^verbatim>\<open>clean_record\<close> puts into the dictionary: \<^verbatim>\<open>None\<close>, a bool, an int, a float
  or a str. A float that is given as a number is taken to be finite; a float that is read
  from a string is whatever \<^verbatim>\<open>float\<close> returns, infinities and NaN included. Strings are
  lists of characters with code points below 256; upper and lower case are converted for
  the ASCII letters only.
\<close>

datatype pyval = PNone | PBool bool | PInt int | PFloat real | PStr string

record datetime =
  dt_year :: nat
  dt_month :: nat
  dt_day :: nat
  dt_hour :: nat
  dt_minute :: nat
  dt_second :: nat

text \<open>
  The two parsers of the Python library that the cleaner calls on strings are parameters
  of the model: \<^verbatim>\<open>float(s)\<close> and \<^verbatim>\<open>datetime.strptime(s, fmt)\<close>, with \<open>None\<close> for
  \<^verbatim>\<open>ValueError\<close>.
\<close>

record builtins =
  float_of_str :: "string \<Rightarrow> pyfloat option"
  strptime :: "string \<Rightarrow> string \<Rightarrow> datetime option"

definition py_isspace :: "char \<Rightarrow> bool" where
  "py_isspace c = (let n = (of_char c :: nat) in
     (9 \<le> n \<and> n \<le> 13) \<or> (28 \<le> n \<and> n \<le> 32) \<or> n = 133 \<or> n = 160)"

definition strip :: "string \<Rightarrow> string" where
  "strip s = rev (dropWhile py_isspace (rev (dropWhile py_isspace s)))"

definition lower_char :: "char \<Rightarrow> char" where
  "lower_char c = (let n = (of_char c :: nat) in
     if 65 \<le> n \<and> n \<le> 90 then char_of (n + 32) else c)"

definition upper_char :: "char \<Rightarrow> char" where
  "upper_char c = (let n = (of_char c :: nat) in
     if 97 \<le> n \<and> n \<le> 122 then char_of (n - 32) else c)"

definition is_lower :: "char \<Rightarrow> bool" where
  "is_lower c = (let n = (of_char c :: nat) in 97 \<le> n \<and> n \<le> 122)"

definition is_upper :: "char \<Rightarrow> bool" where
  "is_upper c = (let n = (of_char c :: nat) in 65 \<le> n \<and> n \<le> 90)"

definition lower :: "string \<Rightarrow> string" where
  "lower s = map lower_char s"

text \<open>\<^verbatim>\<open>str.title()\<close> on ASCII letters: a letter that follows a non-letter is
  upper-cased, a letter that follows a letter is lower-cased.\<close>

fun title_from :: "bool \<Rightarrow> string \<Rightarrow> string" where
  "title_from prev [] = []"
| "title_from prev (c # cs) =
     (if is_lower c then (if prev then c else upper_char c) # title_from True cs
      else if is_upper c then (if prev then lower_char c else c) # title_from True cs
      else c # title_from False cs)"

definition title :: "string \<Rightarrow> string" where
  "title s = title_from False s"

definition is_digit :: "char \<Rightarrow> bool" where
  "is_digit c = (let n = (of_char c :: nat) in 48 \<le> n \<and> n \<le> 57)"

definition digit_val :: "char \<Rightarrow> int" where
  "digit_val c = int (of_char c) - 48"

text \<open>\<^verbatim>\<open>int(s)\<close> for a string of decimal digits only; the empty string raises
  \<^verbatim>\<open>ValueError\<close>. The interpreter's limit on the number of digits is not modelled.\<close>

definition int_of_digits :: "string \<Rightarrow> int option" where
  "int_of_digits s =
     (if s = [] then None else Some (foldl (\<lambda>n c. 10 * n + digit_val c) 0 s))"

definition startswith_minus :: "string \<Rightarrow> bool" where
  "startswith_minus s = (case s of [] \<Rightarrow> False | c # _ \<Rightarrow> c = CHR ''-'')"

text \<open>\<^verbatim>\<open>email.split('@')[-1]\<close>: what follows the last \<^verbatim>\<open>@\<close>.\<close>

definition after_last_at :: "string \<Rightarrow> string" where
  "after_last_at s = rev (takeWhile (\<lambda>c. c \<noteq> CHR ''@'') (rev s))"

section \<open>The cleaner (src/pipeline/cleaning.py)\<close>

definition REGION_MAP :: "(string \<times> string) list" where
  "REGION_MAP =
    [(''nort'', ''North''), (''north'', ''North''), (''nOrth'', ''North''),
     (''sout'', ''South''), (''south'', ''South''), (''sOuth'', ''South''),
     (''eas'', ''East''), (''east'', ''East''), (''eAst'', ''East''),
     (''wes'', ''West''), (''west'', ''West''), (''wEst'', ''West'')]"

definition PRODUCT_NAME_MAP :: "(string \<times> string) list" where
  "PRODUCT_NAME_MAP =
    [(''laptop pro'', ''Laptop Pro 15''),
     (''smartfone x'', ''Smartphone X''),
     (''smart-phone x'', ''Smartphone X''),
     (''smartphone-x'', ''Smartphone X''),
     (''wirless headphones'', ''Wireless Headphones''),
     (''wireless headphones'', ''Wireless Headphones''),
     (''4k led tv'', ''4K LED TV''),
     (''4ktv'', ''4K LED TV''),
     (''blenderpro'', ''Blender Pro''),
     (''blender pro'', ''Blender Pro''),
     (''cofee maker elite'', ''Coffee Maker Elite''),
     (''coffee maker elite'', ''Coffee Maker Elite''),
     (''mens t-shirt (blue)'', ''Men's T-shirt (Blue)''),
     (''t-shirt (blue)'', ''Men's T-shirt (Blue)'')]"

definition CATEGORY_MAP :: "(string \<times> string) list" where
  "CATEGORY_MAP =
    [(''electronics'', ''Electronics''),
     (''home appliance'', ''Home Appliance''),
     (''home appliances'', ''Home Appliance''),
     (''fashion'', ''Fashion''),
     (''clothing'', ''Fashion'')]"

record raw_row =
  raw_order_id :: pyval
  raw_product_name :: pyval
  raw_category :: pyval
  raw_quantity :: pyval
  raw_unit_price :: pyval
  raw_discount_percent :: pyval
  raw_region :: pyval
  raw_sale_date :: pyval
  raw_customer_email :: pyval

text \<open>The dictionary that \<^verbatim>\<open>clean_record\<close> builds and the aggregator reads, with the
  nine columns of the input and \<open>revenue\<close>; every key is present, and a field that is
  \<^verbatim>\<open>None\<close> (or, for \<open>revenue\<close>, not yet set) is \<open>None\<close>.\<close>

record sale =
  order_id :: pyval
  product_name :: "string option"
  category :: "string option"
  region :: "string option"
  quantity :: "int option"
  unit_price :: "pyfloat option"
  discount_percent :: "pyfloat option"
  sale_date :: "datetime option"
  customer_email :: string
  revenue :: "pyfloat option"

record cleaner =
  c_records_processed :: nat
  c_records_dropped :: nat

definition cleaner_init :: cleaner where
  "cleaner_init = \<lparr>c_records_processed = 0, c_records_dropped = 0\<rparr>"

definition standardize_string :: "pyval \<Rightarrow> (string \<times> string) list \<Rightarrow> string option" where
  "standardize_string v mapping =
     (case v of
        PStr s \<Rightarrow>
          (if strip s = [] then None
           else (let clean_value = lower (strip s) in
             case map_of mapping clean_value of
               Some canon \<Rightarrow> Some canon
             | None \<Rightarrow> Some (title clean_value)))
      | _ \<Rightarrow> None)"

definition clean_quantity :: "pyval \<Rightarrow> int option" where
  "clean_quantity v =
     (case v of
        PBool b \<Rightarrow> (if b then Some 1 else None)
      | PInt i \<Rightarrow> (if i > 0 then Some i else None)
      | PFloat x \<Rightarrow> (if x > 0 then Some \<lfloor>x\<rfloor> else None)
      | PStr s \<Rightarrow>
          (if startswith_minus (strip s) then None
           else (case int_of_digits (filter is_digit s) of
                   None \<Rightarrow> None
                 | Some q \<Rightarrow> (if q > 0 then Some q else None)))
      | PNone \<Rightarrow> None)"

definition clean_float :: "builtins \<Rightarrow> pyval \<Rightarrow> pyfloat option" where
  "clean_float lib v =
     (case v of
        PNone \<Rightarrow> None
      | PBool b \<Rightarrow> Some (Finite (if b then 1 else 0))
      | PInt i \<Rightarrow> Some (Finite (of_int i))
      | PFloat x \<Rightarrow> Some (Finite x)
      | PStr s \<Rightarrow> float_of_str lib s)"

definition clean_discount :: "builtins \<Rightarrow> pyval \<Rightarrow> pyfloat option" where
  "clean_discount lib v =
     (case clean_float lib v of
        None \<Rightarrow> None
      | Some discount \<Rightarrow>
          (if fle (Finite 0) discount \<and> fle discount (Finite 1) then Some discount else None))"

definition date_formats :: "string list" where
  "date_formats =
     [''%Y-%m-%d %H:%M:%S'', ''%Y/%m/%d'', ''%Y-%m-%d'', ''%d-%b-%Y'', ''%m/%d/%Y'', ''%d/%m/%Y'']"

fun try_formats :: "builtins \<Rightarrow> string \<Rightarrow> string list \<Rightarrow> datetime option" where
  "try_formats lib s [] = None"
| "try_formats lib s (fmt # fmts) =
     (case strptime lib s fmt of Some d \<Rightarrow> Some d | None \<Rightarrow> try_formats lib s fmts)"

definition clean_date :: "builtins \<Rightarrow> pyval \<Rightarrow> datetime option" where
  "clean_date lib v =
     (case v of
        PStr s \<Rightarrow> (if s = [] then None else try_formats lib (strip s) date_formats)
      | _ \<Rightarrow> None)"

definition clean_email :: "pyval \<Rightarrow> string" where
  "clean_email v =
     (case v of
        PStr s \<Rightarrow>
          (if strip s = [] then ''anonymous''
           else (let email = lower (strip s) in
             if CHR ''@'' \<in> set email \<and> CHR ''.'' \<in> set (after_last_at email)
             then email else ''anonymous''))
      | _ \<Rightarrow> ''anonymous'')"

definition clean_record :: "builtins \<Rightarrow> cleaner \<Rightarrow> raw_row \<Rightarrow> sale option \<times> cleaner" where
  "clean_record lib c r =
     (let c1 = c\<lparr>c_records_processed := c_records_processed c + 1\<rparr>;
          cleaned = \<lparr>order_id = raw_order_id r,
                     product_name = standardize_string (raw_product_name r) PRODUCT_NAME_MAP,
                     category = standardize_string (raw_category r) CATEGORY_MAP,
                     region = standardize_string (raw_region r) REGION_MAP,
                     quantity = clean_quantity (raw_quantity r),
                     unit_price = clean_float lib (raw_unit_price r),
                     discount_percent = clean_discount lib (raw_discount_percent r),
                     sale_date = clean_date lib (raw_sale_date r),
                     customer_email = clean_email (raw_customer_email r),
                     revenue = None\<rparr>
      in case (quantity cleaned, unit_price cleaned, discount_percent cleaned, sale_date cleaned) of
           (Some q, Some p, Some d, Some t) \<Rightarrow>
             (Some (cleaned\<lparr>revenue :=
                Some (fmul (fmul (Finite (of_int q)) p) (fsub (Finite 1) d))\<rparr>), c1)
         | _ \<Rightarrow> (None, c1\<lparr>c_records_dropped := c_records_dropped c1 + 1\<rparr>))"

section \<open>The aggregator (src/pipeline/transformation.py)\<close>

datatype error = ValueError | ZeroDivisionError | IndexError

text \<open>The rule that fired; the source renders each as a formatted sentence.\<close>

datatype reason =
    ExtremelyHighRevenue | UnusuallyHighQuantity | ExtremelyHighUnitPrice
  | SuspiciousHighDiscount | HighValueItemLargeDiscount
  | HighValueTransaction | LargeQuantityExpensiveItems

record monthly_bucket =
  m_revenue :: pyfloat
  m_quantity :: int
  m_total_discount :: pyfloat
  m_num_transactions :: nat

record sales_bucket =
  b_revenue :: pyfloat
  b_quantity :: int

record category_bucket =
  c_total_discount_revenue :: pyfloat
  c_total_revenue :: pyfloat
  c_num_transactions :: nat

record 'a running_stat =
  st_total :: 'a
  st_count :: nat
  st_values :: "'a list"

text \<open>A record copied into the anomaly list, with its \<^verbatim>\<open>anomaly_score\<close> and
  \<^verbatim>\<open>anomaly_reasons\<close>; \<open>a_revenue\<close> is its \<^verbatim>\<open>revenue\<close> entry, which is a number
  whenever a record gets this far.\<close>

record anomaly =
  a_record :: sale
  a_revenue :: pyfloat
  anomaly_score :: int
  anomaly_reasons :: "reason list"

text \<open>The key \<^verbatim>\<open>strftime("%Y-%m")\<close> is kept as the pair (year, month) that it prints.\<close>

type_synonym month_key = "nat \<times> nat"

definition strftime_Ym :: "datetime \<Rightarrow> month_key" where
  "strftime_Ym t = (dt_year t, dt_month t)"

record aggregator =
  anomaly_limit :: int
  top_products_limit :: int
  monthly_sales :: "(month_key \<times> monthly_bucket) list"
  product_sales :: "(string option \<times> sales_bucket) list"
  region_sales :: "(string option \<times> sales_bucket) list"
  category_discounts :: "(string option \<times> category_bucket) list"
  anomaly_records :: "anomaly list"
  records_processed :: nat
  revenue_stats :: "pyfloat running_stat"
  quantity_stats :: "int running_stat"
  price_stats :: "pyfloat running_stat"

text \<open>
  A \<^verbatim>\<open>defaultdict\<close> is a list of (key, value) pairs in insertion order. \<open>upd d f k\<close> is
  \<^verbatim>\<open>dd[k] = f(dd[k])\<close>: a key that is absent is first created with the default \<open>d\<close>, at the
  end.
\<close>

fun upd :: "'v \<Rightarrow> ('v \<Rightarrow> 'v) \<Rightarrow> 'k \<Rightarrow> ('k \<times> 'v) list \<Rightarrow> ('k \<times> 'v) list" where
  "upd d f k [] = [(k, f d)]"
| "upd d f k ((k', v) # kvs) =
     (if k' = k then (k', f v) # kvs else (k', v) # upd d f k kvs)"

definition monthly_default :: monthly_bucket where
  "monthly_default =
     \<lparr>m_revenue = Finite 0, m_quantity = 0, m_total_discount = Finite 0,
      m_num_transactions = 0\<rparr>"

definition sales_default :: sales_bucket where
  "sales_default = \<lparr>b_revenue = Finite 0, b_quantity = 0\<rparr>"

definition category_default :: category_bucket where
  "category_default =
     \<lparr>c_total_discount_revenue = Finite 0, c_total_revenue = Finite 0,
      c_num_transactions = 0\<rparr>"

definition stat_init :: "'a \<Rightarrow> 'a running_stat" where
  "stat_init zero = \<lparr>st_total = zero, st_count = 0, st_values = []\<rparr>"

text \<open>\<^verbatim>\<open>_reset_aggregations\<close> on an aggregator with the given limits.\<close>

definition reset_aggregations :: "int \<Rightarrow> int \<Rightarrow> aggregator" where
  "reset_aggregations a_limit t_limit =
     \<lparr>anomaly_limit = a_limit, top_products_limit = t_limit,
      monthly_sales = [], product_sales = [], region_sales = [],
      category_discounts = [], anomaly_records = [], records_processed = 0,
      revenue_stats = stat_init (Finite 0), quantity_stats = stat_init 0,
      price_stats = stat_init (Finite 0)\<rparr>"

text \<open>The constructors contain no check and no \<^verbatim>\<open>raise\<close>.\<close>

definition DataAggregator_init :: "int \<Rightarrow> int \<Rightarrow> error + aggregator" where
  "DataAggregator_init a_limit t_limit = Inr (reset_aggregations a_limit t_limit)"

definition update_stat ::
  "('a \<Rightarrow> 'a \<Rightarrow> 'a) \<Rightarrow> 'a running_stat \<Rightarrow> 'a \<Rightarrow> 'a running_stat" where
  "update_stat add st x =
     st\<lparr>st_total := add (st_total st) x,
        st_count := st_count st + 1,
        st_values := (if length (st_values st) < 1000 then st_values st @ [x]
                      else st_values st)\<rparr>"

definition update_statistics ::
  "aggregator \<Rightarrow> pyfloat \<Rightarrow> int \<Rightarrow> pyfloat \<Rightarrow> aggregator" where
  "update_statistics s rvn q p =
     s\<lparr>revenue_stats := update_stat fadd (revenue_stats s) rvn,
       quantity_stats := update_stat (+) (quantity_stats s) q,
       price_stats := update_stat fadd (price_stats s) p\<rparr>"

definition statistical_anomaly_checks ::
  "aggregator \<Rightarrow> pyfloat \<Rightarrow> int \<Rightarrow> pyfloat \<Rightarrow> error + int \<times> reason list" where
  "statistical_anomaly_checks s rvn q p =
     (if st_count (revenue_stats s) = 0 then Inl ZeroDivisionError
      else let avg_revenue =
                 fdiv (st_total (revenue_stats s)) (Finite (real (st_count (revenue_stats s))));
               (score1, reasons1) =
                 (if fgt rvn (fmul avg_revenue (Finite 10)) then (3, [ExtremelyHighRevenue])
                  else (0, []))
      in if st_count (quantity_stats s) = 0 then Inl ZeroDivisionError
      else let avg_quantity =
                 Finite (real_of_int (st_total (quantity_stats s)) /
                         real (st_count (quantity_stats s)));
               (score2, reasons2) =
                 (if fgt (Finite (real_of_int q)) (fmul avg_quantity (Finite 5))
                  then (score1 + 2, reasons1 @ [UnusuallyHighQuantity])
                  else (score1, reasons1))
      in if st_count (price_stats s) = 0 then Inl ZeroDivisionError
      else let avg_price =
                 fdiv (st_total (price_stats s)) (Finite (real (st_count (price_stats s))))
      in if fgt p (fmul avg_price (Finite 5))
         then Inr (score2 + 2, reasons2 @ [ExtremelyHighUnitPrice])
         else Inr (score2, reasons2))"

definition discount_anomaly_checks :: "pyfloat \<Rightarrow> pyfloat \<Rightarrow> int \<times> reason list" where
  "discount_anomaly_checks p d =
     (let (score1, reasons1) =
            (if fgt d (Finite 0.7) then (1, [SuspiciousHighDiscount]) else (0, []))
      in if fgt p (Finite 1000) \<and> fgt d (Finite 0.5)
         then (score1 + 2, reasons1 @ [HighValueItemLargeDiscount])
         else (score1, reasons1))"

definition revenue_threshold_anomaly :: "pyfloat \<Rightarrow> int \<times> reason list" where
  "revenue_threshold_anomaly rvn =
     (if fgt rvn (Finite 50000) then (1, [HighValueTransaction]) else (0, []))"

definition extreme_combination_anomaly :: "int \<Rightarrow> pyfloat \<Rightarrow> int \<times> reason list" where
  "extreme_combination_anomaly q p =
     (if q > 100 \<and> fgt p (Finite 500) then (2, [LargeQuantityExpensiveItems]) else (0, []))"

text \<open>
  \<^verbatim>\<open>list.sort(key=f, reverse=True)\<close> and \<^verbatim>\<open>sorted(xs, key=f, reverse=True)\<close>. The
  interpreter reverses the list, sorts it ascending with a stable sort that compares keys
  with \<^verbatim>\<open><\<close> only, and reverses it again. The ascending sort is modelled as the insertion
  sort that puts each entry, from the left, behind the entries of the sorted prefix that
  are not greater; \<open>place\<close> works on that prefix held in reverse. Where \<^verbatim>\<open><\<close> orders the
  keys (no NaN among them) every stable sort returns the same list; a list in which no
  entry is \<^verbatim>\<open><\<close> the one before it is left as it is by this sort and by the
  interpreter's, whatever the keys.
\<close>

fun place :: "('k \<Rightarrow> 'k \<Rightarrow> bool) \<Rightarrow> ('a \<Rightarrow> 'k) \<Rightarrow> 'a \<Rightarrow> 'a list \<Rightarrow> 'a list" where
  "place lt f x [] = [x]"
| "place lt f x (y # ys) =
     (if lt (f x) (f y) then y # place lt f x ys else x # y # ys)"

definition sort_asc :: "('k \<Rightarrow> 'k \<Rightarrow> bool) \<Rightarrow> ('a \<Rightarrow> 'k) \<Rightarrow> 'a list \<Rightarrow> 'a list" where
  "sort_asc lt f xs = rev (foldl (\<lambda>prefix x. place lt f x prefix) [] xs)"

definition sort_desc :: "('k \<Rightarrow> 'k \<Rightarrow> bool) \<Rightarrow> ('a \<Rightarrow> 'k) \<Rightarrow> 'a list \<Rightarrow> 'a list" where
  "sort_desc lt f xs = rev (sort_asc lt f (rev xs))"

text \<open>The sort key \<^verbatim>\<open>(x['anomaly_score'], x['revenue'])\<close> and \<^verbatim>\<open><\<close> on such tuples.\<close>

definition anomaly_key :: "anomaly \<Rightarrow> int \<times> pyfloat" where
  "anomaly_key a = (anomaly_score a, a_revenue a)"

definition key_lt :: "int \<times> pyfloat \<Rightarrow> int \<times> pyfloat \<Rightarrow> bool" where
  "key_lt k1 k2 = (fst k1 < fst k2 \<or> (fst k1 = fst k2 \<and> flt (snd k1) (snd k2)))"

definition update_anomaly_records :: "aggregator \<Rightarrow> anomaly \<Rightarrow> aggregator \<times> error option" where
  "update_anomaly_records s a =
     (if int (length (anomaly_records s)) < anomaly_limit s
      then (s\<lparr>anomaly_records :=
                sort_desc key_lt anomaly_key (anomaly_records s @ [a])\<rparr>, None)
      else if anomaly_records s = [] then (s, Some IndexError)
      else let worst = last (anomaly_records s)
      in if anomaly_score a > anomaly_score worst \<or>
            (anomaly_score a = anomaly_score worst \<and> fgt (a_revenue a) (a_revenue worst))
         then (s\<lparr>anomaly_records :=
                   sort_desc key_lt anomaly_key (butlast (anomaly_records s) @ [a])\<rparr>, None)
         else (s, None))"

text \<open>The score and the reasons that \<^verbatim>\<open>_detect_and_update_anomalies\<close> accumulates before
  it decides.\<close>

definition score_record ::
  "aggregator \<Rightarrow> pyfloat \<Rightarrow> int \<Rightarrow> pyfloat \<Rightarrow> pyfloat \<Rightarrow> error + int \<times> reason list" where
  "score_record s rvn q p d =
     (case (if records_processed s > 100 then statistical_anomaly_checks s rvn q p
            else Inr (0, [])) of
        Inl e \<Rightarrow> Inl e
      | Inr (score0, reasons0) \<Rightarrow>
          (let (score1, reasons1) = discount_anomaly_checks p d;
               (score2, reasons2) = revenue_threshold_anomaly rvn;
               (score3, reasons3) = extreme_combination_anomaly q p
           in Inr (score0 + score1 + score2 + score3,
                   reasons0 @ reasons1 @ reasons2 @ reasons3)))"

definition detect_and_update_anomalies ::
  "aggregator \<Rightarrow> sale \<Rightarrow> pyfloat \<Rightarrow> int \<Rightarrow> pyfloat \<Rightarrow> pyfloat \<Rightarrow>
     aggregator \<times> error option" where
  "detect_and_update_anomalies s r rvn q p d =
     (case score_record s rvn q p d of
        Inl e \<Rightarrow> (s, Some e)
      | Inr (score, reasons) \<Rightarrow>
          (if score \<ge> 2
           then update_anomaly_records s
                  \<lparr>a_record = r, a_revenue = rvn, anomaly_score = score,
                   anomaly_reasons = reasons\<rparr>
           else (s, None)))"

text \<open>The five fields that \<^verbatim>\<open>_process_single_record\<close> requires to be not \<^verbatim>\<open>None\<close>.\<close>

definition required_fields ::
  "sale \<Rightarrow> (int \<times> pyfloat \<times> pyfloat \<times> datetime \<times> pyfloat) option" where
  "required_fields r =
     (case quantity r of None \<Rightarrow> None | Some q \<Rightarrow>
      case unit_price r of None \<Rightarrow> None | Some p \<Rightarrow>
      case discount_percent r of None \<Rightarrow> None | Some d \<Rightarrow>
      case sale_date r of None \<Rightarrow> None | Some t \<Rightarrow>
      case revenue r of None \<Rightarrow> None | Some rvn \<Rightarrow> Some (q, p, d, t, rvn))"

text \<open>The bucket updates of \<^verbatim>\<open>_process_single_record\<close>; the successive \<^verbatim>\<open>+=\<close> on the
  fields of one bucket are one update of its entry.\<close>

definition update_buckets ::
  "aggregator \<Rightarrow> sale \<Rightarrow> pyfloat \<Rightarrow> int \<Rightarrow> pyfloat \<Rightarrow> datetime \<Rightarrow> aggregator" where
  "update_buckets s r rvn q d t =
     s\<lparr>monthly_sales :=
         upd monthly_default
           (\<lambda>b. b\<lparr>m_revenue := fadd (m_revenue b) rvn, m_quantity := m_quantity b + q,
                   m_total_discount := fadd (m_total_discount b) d,
                   m_num_transactions := m_num_transactions b + 1\<rparr>)
           (strftime_Ym t) (monthly_sales s),
       product_sales :=
         upd sales_default
           (\<lambda>b. b\<lparr>b_revenue := fadd (b_revenue b) rvn, b_quantity := b_quantity b + q\<rparr>)
           (product_name r) (product_sales s),
       region_sales :=
         upd sales_default
           (\<lambda>b. b\<lparr>b_revenue := fadd (b_revenue b) rvn, b_quantity := b_quantity b + q\<rparr>)
           (region r) (region_sales s),
       category_discounts :=
         upd category_default
           (\<lambda>b. b\<lparr>c_total_discount_revenue :=
                     fadd (c_total_discount_revenue b) (fmul rvn d),
                   c_total_revenue := fadd (c_total_revenue b) rvn,
                   c_num_transactions := c_num_transactions b + 1\<rparr>)
           (category r) (category_discounts s)\<rparr>"

text \<open>
  \<^verbatim>\<open>_process_single_record\<close> returns the state as the record left it and the exception it
  raised, if any: the updates made before a raise stay.
\<close>

definition process_single_record :: "aggregator \<Rightarrow> sale \<Rightarrow> aggregator \<times> error option" where
  "process_single_record s r =
     (case required_fields r of
        None \<Rightarrow> (s, Some ValueError)
      | Some (q, p, d, t, rvn) \<Rightarrow>
          detect_and_update_anomalies
            (update_buckets (update_statistics s rvn q p) r rvn q d t) r rvn q p d)"

text \<open>One iteration of the loop of \<^verbatim>\<open>process_chunk\<close>: the exception is caught, and
  \<^verbatim>\<open>records_processed\<close> is incremented only when none was raised.\<close>

definition process_record :: "aggregator \<Rightarrow> sale \<Rightarrow> aggregator" where
  "process_record s r =
     (case process_single_record s r of
        (s', None) \<Rightarrow> s'\<lparr>records_processed := records_processed s' + 1\<rparr>
      | (s', Some e) \<Rightarrow> s')"

definition process_chunk :: "aggregator \<Rightarrow> sale list \<Rightarrow> aggregator" where
  "process_chunk s chunk = foldl process_record s chunk"

record monthly_final =
  mf_revenue :: pyfloat
  mf_quantity :: int
  mf_avg_discount :: pyfloat

record finalized =
  f_monthly_sales :: "(month_key \<times> monthly_final) list"
  f_product_sales :: "(string option \<times> sales_bucket) list"
  f_region_sales :: "(string option \<times> sales_bucket) list"
  f_category_discounts :: "(string option \<times> pyfloat) list"
  f_anomaly_records :: "anomaly list"
  f_top_products :: "(string option \<times> sales_bucket) list"
  f_records_processed :: nat

definition finalize_monthly :: "monthly_bucket \<Rightarrow> monthly_final" where
  "finalize_monthly b =
     \<lparr>mf_revenue = m_revenue b, mf_quantity = m_quantity b,
      mf_avg_discount = (if m_num_transactions b > 0
                         then fdiv (m_total_discount b) (Finite (real (m_num_transactions b)))
                         else Finite 0)\<rparr>"

definition finalize_category :: "category_bucket \<Rightarrow> pyfloat" where
  "finalize_category b =
     (if fgt (c_total_revenue b) (Finite 0)
      then fdiv (c_total_discount_revenue b) (c_total_revenue b) else Finite 0)"

text \<open>The slice \<^verbatim>\<open>xs[:n]\<close>; a negative \<open>n\<close> counts from the end.\<close>

definition slice_to :: "int \<Rightarrow> 'a list \<Rightarrow> 'a list" where
  "slice_to n xs = (if n \<ge> 0 then take (nat n) xs else take (length xs - nat (- n)) xs)"

text \<open>
  \<^verbatim>\<open>_log_summary_statistics\<close> changes nothing; of its divisions only
  \<^verbatim>\<open>len(self.anomaly_records) / self.records_processed\<close> is unguarded, and it is reached when
  the revenue count is positive.
\<close>

definition log_summary_statistics :: "aggregator \<Rightarrow> error option" where
  "log_summary_statistics s =
     (if st_count (revenue_stats s) > 0 \<and> records_processed s = 0
      then Some ZeroDivisionError else None)"

text \<open>
  \<^verbatim>\<open>finalize_aggregations\<close> returns the finalized state and the exception that the
  logging at its end raised, if any; the state is complete by then.
\<close>

definition finalize_aggregations :: "aggregator \<Rightarrow> finalized \<times> error option" where
  "finalize_aggregations s =
     (\<lparr>f_monthly_sales = map (\<lambda>(k, b). (k, finalize_monthly b)) (monthly_sales s),
       f_product_sales = product_sales s,
       f_region_sales = region_sales s,
       f_category_discounts = map (\<lambda>(k, b). (k, finalize_category b)) (category_discounts s),
       f_anomaly_records = anomaly_records s,
       f_top_products =
         slice_to (top_products_limit s)
           (sort_desc flt (\<lambda>item. b_revenue (snd item)) (product_sales s)),
       f_records_processed = records_processed s\<rparr>,
      log_summary_statistics s)"

section \<open>Reader and pipeline (src/pipeline/ingestion.py, src/pipeline/orchestrator.py)\<close>

text \<open>The loop of \<^verbatim>\<open>read_in_chunks\<close> over the rows of the file, \<open>chunk\<close> being the rows
  collected since the last yield.\<close>

fun chunk_loop :: "int \<Rightarrow> 'a list \<Rightarrow> 'a list \<Rightarrow> 'a list list" where
  "chunk_loop chunk_size chunk [] = (if chunk \<noteq> [] then [chunk] else [])"
| "chunk_loop chunk_size chunk (row # rows) =
     (if int (length (chunk @ [row])) = chunk_size
      then (chunk @ [row]) # chunk_loop chunk_size [] rows
      else chunk_loop chunk_size (chunk @ [row]) rows)"

definition read_in_chunks :: "int \<Rightarrow> 'a list \<Rightarrow> 'a list list" where
  "read_in_chunks chunk_size rows = chunk_loop chunk_size [] rows"

record config =
  DEFAULT_CHUNK_SIZE :: int
  ANOMALY_RECORDS_LIMIT :: int
  TOP_PRODUCTS_LIMIT :: int

record validations =
  v_chunk_size :: bool
  v_anomaly_limit :: bool
  v_top_products_limit :: bool

definition validate_config :: "config \<Rightarrow> validations" where
  "validate_config cfg =
     \<lparr>v_chunk_size = (DEFAULT_CHUNK_SIZE cfg > 0),
      v_anomaly_limit = (ANOMALY_RECORDS_LIMIT cfg > 0),
      v_top_products_limit = (TOP_PRODUCTS_LIMIT cfg > 0)\<rparr>"

record pipeline =
  p_chunk_size :: int
  p_cleaner :: cleaner
  p_aggregator :: aggregator

definition DataPipeline_init :: "int \<Rightarrow> config \<Rightarrow> error + pipeline" where
  "DataPipeline_init chunk_size cfg =
     (case DataAggregator_init (ANOMALY_RECORDS_LIMIT cfg) (TOP_PRODUCTS_LIMIT cfg) of
        Inl e \<Rightarrow> Inl e
      | Inr agg \<Rightarrow> Inr \<lparr>p_chunk_size = chunk_size, p_cleaner = cleaner_init, p_aggregator = agg\<rparr>)"

text \<open>The inner loop of \<^verbatim>\<open>_process_chunks\<close>: clean each row, keep what is not \<^verbatim>\<open>None\<close>.\<close>

fun clean_chunk :: "builtins \<Rightarrow> cleaner \<Rightarrow> raw_row list \<Rightarrow> sale list \<times> cleaner" where
  "clean_chunk lib c [] = ([], c)"
| "clean_chunk lib c (row # rows) =
     (case clean_record lib c row of
        (None, c') \<Rightarrow> clean_chunk lib c' rows
      | (Some cleaned, c') \<Rightarrow>
          (case clean_chunk lib c' rows of (cs, c'') \<Rightarrow> (cleaned # cs, c'')))"

definition process_raw_chunk :: "builtins \<Rightarrow> pipeline \<Rightarrow> raw_row list \<Rightarrow> pipeline" where
  "process_raw_chunk lib pl raw_chunk =
     (case clean_chunk lib (p_cleaner pl) raw_chunk of
        (cleaned_chunk, c') \<Rightarrow>
          pl\<lparr>p_cleaner := c',
             p_aggregator := (if cleaned_chunk \<noteq> []
                              then process_chunk (p_aggregator pl) cleaned_chunk
                              else p_aggregator pl)\<rparr>)"

definition process_chunks :: "builtins \<Rightarrow> pipeline \<Rightarrow> raw_row list \<Rightarrow> pipeline" where
  "process_chunks lib pl rows =
     foldl (process_raw_chunk lib) pl (read_in_chunks (p_chunk_size pl) rows)"

text \<open>\<^verbatim>\<open>run\<close>, up to the point where the results are handed to the writer; an
  exception of \<^verbatim>\<open>finalize_aggregations\<close> ends it.\<close>

definition run :: "builtins \<Rightarrow> pipeline \<Rightarrow> raw_row list \<Rightarrow> error + finalized \<times> cleaner" where
  "run lib pl rows =
     (let pl' = process_chunks lib pl rows
      in case finalize_aggregations (p_aggregator pl') of
           (fin, Some e) \<Rightarrow> Inl e
         | (fin, None) \<Rightarrow> Inr (fin, p_cleaner pl'))"

section \<open>Reference definitions and sample inputs\<close>

text \<open>The quantity rule as the specification words it: a string is rejected when it
  starts with \<^verbatim>\<open>-\<close>, with no trimming first.\<close>

definition spec_clean_quantity :: "pyval \<Rightarrow> int option" where
  "spec_clean_quantity v =
     (case v of
        PStr s \<Rightarrow>
          (if startswith_minus s then None
           else (case int_of_digits (filter is_digit s) of
                   None \<Rightarrow> None
                 | Some q \<Rightarrow> (if q > 0 then Some q else None)))
      | PBool b \<Rightarrow> (if b then Some 1 else None)
      | PInt i \<Rightarrow> (if i > 0 then Some i else None)
      | PFloat x \<Rightarrow> (if x > 0 then Some \<lfloor>x\<rfloor> else None)
      | PNone \<Rightarrow> None)"

text \<open>What \<^verbatim>\<open>float\<close> and \<^verbatim>\<open>strptime\<close> return on the strings of the sample rows below:
  \<^verbatim>\<open>"2024-01-15"\<close> is rejected by the first two date formats and parsed by the third.\<close>

definition sample_float :: "string \<Rightarrow> pyfloat option" where
  "sample_float s =
     map_of [(''1000.0'', Finite 1000), (''-5.0'', Finite (- 5)), (''0.1'', Finite (1 / 10)),
             (''0'', Finite 0), (''10'', Finite 10), (''20'', Finite 20),
             (''2000'', Finite 2000), (''4000'', Finite 4000),
             (''0.75'', Finite (3 / 4)), (''1.0'', Finite 1),
             (''inf'', PosInf), (''nan'', NaN)] s"

definition sample_builtins :: builtins where
  "sample_builtins =
     \<lparr>float_of_str = sample_float,
      strptime = (\<lambda>s fmt. if s = ''2024-01-15'' \<and> fmt = ''%Y-%m-%d''
                           then Some \<lparr>dt_year = 2024, dt_month = 1, dt_day = 15,
                                      dt_hour = 0, dt_minute = 0, dt_second = 0\<rparr>
                           else None)\<rparr>"

definition sample_row :: raw_row where
  "sample_row =
     \<lparr>raw_order_id = PStr ''ORD-12345'', raw_product_name = PStr ''laptop pro'',
      raw_category = PStr ''electronics'', raw_quantity = PStr ''10'',
      raw_unit_price = PStr ''1000.0'', raw_discount_percent = PStr ''0.1'',
      raw_region = PStr ''nort'', raw_sale_date = PStr ''2024-01-15'',
      raw_customer_email = PStr ''test@example.com''\<rparr>"

definition sample_date :: datetime where
  "sample_date = \<lparr>dt_year = 2024, dt_month = 1, dt_day = 15,
                   dt_hour = 0, dt_minute = 0, dt_second = 0\<rparr>"

definition sample_sale :: sale where
  "sample_sale =
     \<lparr>order_id = PStr ''ORD-12345'', product_name = Some ''Laptop Pro 15'',
      category = Some ''Electronics'', region = Some ''North'',
      quantity = Some 10, unit_price = Some (Finite 1000),
      discount_percent = Some (Finite (1 / 10)),
      sale_date = Some sample_date, customer_email = ''test@example.com'',
      revenue = Some (Finite 9000)\<rparr>"

definition big_sale :: sale where
  "big_sale =
     \<lparr>order_id = PStr ''ORD-2'', product_name = Some ''Laptop Pro 15'',
      category = Some ''Electronics'', region = Some ''North'',
      quantity = Some 200, unit_price = Some (Finite 1000),
      discount_percent = Some (Finite (1 / 10)),
      sale_date = Some sample_date, customer_email = ''anonymous'',
      revenue = Some (Finite 180000)\<rparr>"

definition sample_config :: config where
  "sample_config =
     \<lparr>DEFAULT_CHUNK_SIZE = 1000, ANOMALY_RECORDS_LIMIT = 5, TOP_PRODUCTS_LIMIT = 10\<rparr>"

definition sample_pipeline :: "int \<Rightarrow> pipeline" where
  "sample_pipeline chunk_size =
     \<lparr>p_chunk_size = chunk_size, p_cleaner = cleaner_init,
      p_aggregator = reset_aggregations 5 10\<rparr>"

text \<open>The quantity a record carries, and the quantity it adds to the buckets: nothing when
  one of the required fields is missing.\<close>

definition quantity_of :: "sale \<Rightarrow> int" where
  "quantity_of r = (case quantity r of Some q \<Rightarrow> q | None \<Rightarrow> 0)"

definition ingested_quantity :: "sale \<Rightarrow> int" where
  "ingested_quantity r = (case required_fields r of Some (q, p, d, t, rvn) \<Rightarrow> q | None \<Rightarrow> 0)"

definition monthly_quantity :: "aggregator \<Rightarrow> int" where
  "monthly_quantity s = sum_list (map (\<lambda>kv. m_quantity (snd kv)) (monthly_sales s))"

definition region_quantity :: "aggregator \<Rightarrow> int" where
  "region_quantity s = sum_list (map (\<lambda>kv. b_quantity (snd kv)) (region_sales s))"

text \<open>The running means that \<^verbatim>\<open>_statistical_anomaly_checks\<close> computes, and the anomaly
  score as the specification states it.\<close>

definition running_mean :: "pyfloat running_stat \<Rightarrow> pyfloat" where
  "running_mean st = fdiv (st_total st) (Finite (real (st_count st)))"

definition running_mean_int :: "int running_stat \<Rightarrow> pyfloat" where
  "running_mean_int st = Finite (real_of_int (st_total st) / real (st_count st))"

definition spec_score ::
  "nat \<Rightarrow> pyfloat \<Rightarrow> pyfloat \<Rightarrow> pyfloat \<Rightarrow> pyfloat \<Rightarrow> int \<Rightarrow> pyfloat \<Rightarrow> pyfloat \<Rightarrow> int" where
  "spec_score n avg_revenue avg_quantity avg_price rvn q p d =
     (if n > 100
      then (if fgt rvn (fmul (Finite 10) avg_revenue) then 3 else 0) +
           (if fgt (Finite (real_of_int q)) (fmul (Finite 5) avg_quantity) then 2 else 0) +
           (if fgt p (fmul (Finite 5) avg_price) then 2 else 0)
      else 0) +
     (if fgt d (Finite 0.7) then 1 else 0) +
     (if fgt p (Finite 1000) \<and> fgt d (Finite 0.5) then 2 else 0) +
     (if fgt rvn (Finite 50000) then 1 else 0) +
     (if q > 100 \<and> fgt p (Finite 500) then 2 else 0)"

text \<open>The ranking of the anomaly list, written out: by score, then by revenue.\<close>

definition not_worse :: "anomaly \<Rightarrow> anomaly \<Rightarrow> bool" where
  "not_worse x y = (anomaly_score x > anomaly_score y \<or>
     (anomaly_score x = anomaly_score y \<and> fle (a_revenue y) (a_revenue x)))"

definition strictly_better :: "anomaly \<Rightarrow> anomaly \<Rightarrow> bool" where
  "strictly_better x y = (anomaly_score x > anomaly_score y \<or>
     (anomaly_score x = anomaly_score y \<and> fgt (a_revenue x) (a_revenue y)))"

text \<open>A record, a candidate or a product bucket whose revenue is a number, not NaN.\<close>

definition revenue_ordered :: "sale \<Rightarrow> bool" where
  "revenue_ordered r = (revenue r \<noteq> Some NaN)"

definition anomaly_ordered :: "anomaly \<Rightarrow> bool" where
  "anomaly_ordered a = (a_revenue a \<noteq> NaN)"

definition bucket_ordered :: "string option \<times> sales_bucket \<Rightarrow> bool" where
  "bucket_ordered item = (b_revenue (snd item) \<noteq> NaN)"

definition anomalies_ok :: "aggregator \<Rightarrow> bool" where
  "anomalies_ok s = (int (length (anomaly_records s)) \<le> anomaly_limit s \<and>
     sorted_wrt not_worse (anomaly_records s) \<and>
     list_all anomaly_ordered (anomaly_records s))"

definition big_anomaly :: anomaly where
  "big_anomaly = \<lparr>a_record = big_sale, a_revenue = Finite 180000, anomaly_score = 3,
     anomaly_reasons = [HighValueTransaction, LargeQuantityExpensiveItems]\<rparr>"

text \<open>An aggregator whose product buckets hold two ties, with a top-products limit of 3.\<close>

definition tie_state :: aggregator where
  "tie_state = (reset_aggregations 5 3)\<lparr>product_sales :=
     [(Some ''A'', \<lparr>b_revenue = Finite 100, b_quantity = 1\<rparr>),
      (Some ''B'', \<lparr>b_revenue = Finite 300, b_quantity = 2\<rparr>),
      (Some ''C'', \<lparr>b_revenue = Finite 100, b_quantity = 3\<rparr>),
      (Some ''D'', \<lparr>b_revenue = Finite 300, b_quantity = 4\<rparr>)]\<rparr>"

text \<open>
  Rows of a file with quantity 1 and the given product, unit price and discount, and the
  records that the cleaner makes of them. In \<open>nan_revenue_rows\<close> the second row has the
  unit price \<^verbatim>\<open>inf\<close> and the discount \<^verbatim>\<open>1.0\<close>, so its revenue is 1 * inf * (1 - 1.0),
  which is NaN; in \<open>nan_price_rows\<close> the second row has the unit price \<^verbatim>\<open>nan\<close>.
\<close>

definition priced_row :: "string \<Rightarrow> string \<Rightarrow> string \<Rightarrow> raw_row" where
  "priced_row name price discount =
     sample_row\<lparr>raw_product_name := PStr name, raw_quantity := PStr ''1'',
                raw_unit_price := PStr price, raw_discount_percent := PStr discount\<rparr>"

definition priced_sale :: "string \<Rightarrow> pyfloat \<Rightarrow> pyfloat \<Rightarrow> sale" where
  "priced_sale name p d =
     sample_sale\<lparr>product_name := Some name, quantity := Some 1, unit_price := Some p,
                 discount_percent := Some d,
                 revenue := Some (fmul (fmul (Finite 1) p) (fsub (Finite 1) d))\<rparr>"

definition nan_revenue_rows :: "raw_row list" where
  "nan_revenue_rows =
     [priced_row ''a'' ''2000'' ''0.75'', priced_row ''b'' ''inf'' ''1.0'',
      priced_row ''c'' ''4000'' ''0.75'']"

definition nan_revenue_sales :: "sale list" where
  "nan_revenue_sales =
     [priced_sale ''A'' (Finite 2000) (Finite (3 / 4)), priced_sale ''B'' PosInf (Finite 1),
      priced_sale ''C'' (Finite 4000) (Finite (3 / 4))]"

definition nan_price_rows :: "raw_row list" where
  "nan_price_rows =
     [priced_row ''a'' ''10'' ''0'', priced_row ''b'' ''nan'' ''0'',
      priced_row ''c'' ''20'' ''0'']"

definition nan_price_sales :: "sale list" where
  "nan_price_sales =
     [priced_sale ''A'' (Finite 10) (Finite 0), priced_sale ''B'' NaN (Finite 0),
      priced_sale ''C'' (Finite 20) (Finite 0)]"

text \<open>The distinct months, products, regions and categories of a list of records, and
  the number of entries an aggregator retains: its buckets, its anomaly list and its three
  samples.\<close>

definition month_of :: "sale \<Rightarrow> month_key option" where
  "month_of r = map_option strftime_Ym (sale_date r)"

definition distinct_months :: "sale list \<Rightarrow> month_key list" where
  "distinct_months recs = remdups (List.map_filter month_of recs)"

definition distinct_products :: "sale list \<Rightarrow> string option list" where
  "distinct_products recs = remdups (map product_name recs)"

definition distinct_regions :: "sale list \<Rightarrow> string option list" where
  "distinct_regions recs = remdups (map region recs)"

definition distinct_categories :: "sale list \<Rightarrow> string option list" where
  "distinct_categories recs = remdups (map category recs)"

definition state_size :: "aggregator \<Rightarrow> nat" where
  "state_size s =
     length (monthly_sales s) + length (product_sales s) + length (region_sales s) +
     length (category_discounts s) + length (anomaly_records s) +
     length (st_values (revenue_stats s)) + length (st_values (quantity_stats s)) +
     length (st_values (price_stats s))"

text \<open>Invariants of ingestion: the keys of each bucket store are distinct and among the
  keys of the records seen; the anomaly list and the samples are within their caps.\<close>

definition keys_in :: "('k \<times> 'v) list \<Rightarrow> 'k list \<Rightarrow> bool" where
  "keys_in kvs ks = (distinct (map fst kvs) \<and> fst ` set kvs \<subseteq> set ks)"

definition keys_within :: "aggregator \<Rightarrow> sale list \<Rightarrow> bool" where
  "keys_within s recs =
     (keys_in (monthly_sales s) (distinct_months recs) \<and>
      keys_in (product_sales s) (distinct_products recs) \<and>
      keys_in (region_sales s) (distinct_regions recs) \<and>
      keys_in (category_discounts s) (distinct_categories recs))"

definition samples_capped :: "aggregator \<Rightarrow> bool" where
  "samples_capped s =
     (length (anomaly_records s) \<le> nat (anomaly_limit s) \<and>
      length (st_values (revenue_stats s)) \<le> 1000 \<and>
      length (st_values (quantity_stats s)) \<le> 1000 \<and>
      length (st_values (price_stats s)) \<le> 1000)"

section \<open>Properties of the float operations\<close>

lemma fle_Finite [simp]: "fle (Finite a) (Finite b) \<longleftrightarrow> a \<le> b"
  by (auto simp: fle_def)

lemma fgt_Finite [simp]: "fgt (Finite a) (Finite b) \<longleftrightarrow> b < a"
  by (simp add: fgt_def)

lemma fsub_Finite [simp]: "fsub (Finite a) (Finite b) = Finite (a - b)"
  by (simp add: fsub_def)

lemma fgt_NaN [simp]: "\<not> fgt NaN a" "\<not> fgt a NaN"
  by (cases a; simp add: fgt_def)+

lemma fle_unit_interval:
  "fle (Finite 0) d \<and> fle d (Finite 1) \<longleftrightarrow> (\<exists>x. d = Finite x \<and> 0 \<le> x \<and> x \<le> 1)"
  by (cases d) (auto simp: fle_def)

lemma fmul_commute: "fmul a b = fmul b a"
  by (cases a; cases b; simp add: mult.commute)

lemma flt_irrefl [simp]: "\<not> flt a a"
  by (cases a) simp_all

lemma flt_asym: "flt a b \<Longrightarrow> \<not> flt b a"
  by (cases a; cases b; simp)

lemma flt_negtrans: "\<not> flt a b \<Longrightarrow> \<not> flt b c \<Longrightarrow> b \<noteq> NaN \<Longrightarrow> \<not> flt a c"
  by (cases a; cases b; cases c; simp)

lemma fle_not_flt: "a \<noteq> NaN \<Longrightarrow> b \<noteq> NaN \<Longrightarrow> fle a b \<longleftrightarrow> \<not> flt b a"
  by (simp add: fle_def)

section \<open>Properties of the cleaner\<close>

lemma not_space_minus: "\<not> py_isspace CHR ''-''"
  by (simp add: py_isspace_def)

lemma strip_keeps_head:
  assumes "\<not> py_isspace c"
  shows "\<exists>cs'. strip (c # cs) = c # cs'"
proof -
  have "\<exists>zs. dropWhile py_isspace (rev cs @ [c]) = zs @ [c]"
  proof (cases "\<forall>x\<in>set cs. py_isspace x")
    case True
    then have "dropWhile py_isspace (rev cs @ [c]) = [] @ [c]"
      using assms by (simp add: dropWhile_append)
    then show ?thesis by blast
  next
    case False
    then have "dropWhile py_isspace (rev cs @ [c]) = dropWhile py_isspace (rev cs) @ [c]"
      by (simp add: dropWhile_append)
    then show ?thesis by blast
  qed
  then obtain zs where "dropWhile py_isspace (rev cs @ [c]) = zs @ [c]" by blast
  then show ?thesis using assms by (simp add: strip_def)
qed

lemma startswith_minus_strip: "startswith_minus s \<Longrightarrow> startswith_minus (strip s)"
proof (cases s)
  case Nil
  assume "startswith_minus s"
  then show ?thesis using Nil by (simp add: startswith_minus_def)
next
  case (Cons c cs)
  assume "startswith_minus s"
  then have "c = CHR ''-''" using Cons by (simp add: startswith_minus_def)
  then obtain cs' where "strip s = CHR ''-'' # cs'"
    using strip_keeps_head[OF not_space_minus, of cs] Cons by auto
  then show ?thesis by (simp add: startswith_minus_def)
qed

lemma clean_quantity_dropped:
  "clean_quantity (raw_quantity r) = None \<Longrightarrow>
   clean_record lib c r = (None, c\<lparr>c_records_processed := c_records_processed c + 1,
                                    c_records_dropped := c_records_dropped c + 1\<rparr>)"
  by (simp add: clean_record_def Let_def)

lemma clean_quantity_minus5: "clean_quantity (PStr ''-5'') = None"
  by (simp add: clean_quantity_def strip_def py_isspace_def startswith_minus_def)

lemma clean_quantity_pos:
  "clean_quantity v = Some q \<Longrightarrow> (\<forall>x. v \<noteq> PFloat x) \<Longrightarrow> 0 < q"
  by (auto simp: clean_quantity_def split: pyval.splits if_splits option.splits)

lemma clean_discount_range:
  "clean_discount lib v = Some d \<Longrightarrow> \<exists>x. d = Finite x \<and> 0 \<le> x \<and> x \<le> 1"
  using fle_unit_interval[of d]
  by (auto simp: clean_discount_def split: option.splits if_splits)

lemma sample_date_parses:
  "clean_date sample_builtins (PStr ''2024-01-15'') = Some sample_date"
  by (simp add: clean_date_def date_formats_def sample_builtins_def sample_date_def
      strip_def py_isspace_def)

lemma sample_row_strings:
  "standardize_string (PStr ''laptop pro'') PRODUCT_NAME_MAP = Some ''Laptop Pro 15''"
  "standardize_string (PStr ''electronics'') CATEGORY_MAP = Some ''Electronics''"
  "standardize_string (PStr ''nort'') REGION_MAP = Some ''North''"
  "clean_email (PStr ''test@example.com'') = ''test@example.com''"
  by (simp_all add: standardize_string_def clean_email_def PRODUCT_NAME_MAP_def
      CATEGORY_MAP_def REGION_MAP_def strip_def py_isspace_def lower_def lower_char_def
      after_last_at_def)

lemma sample_row_numbers:
  "clean_quantity (PStr ''10'') = Some 10"
  "clean_float sample_builtins (PStr ''1000.0'') = Some (Finite 1000)"
  "clean_float sample_builtins (PStr ''-5.0'') = Some (Finite (- 5))"
  "clean_discount sample_builtins (PStr ''0.1'') = Some (Finite (1 / 10))"
  by (simp_all add: clean_quantity_def clean_float_def clean_discount_def sample_builtins_def
      sample_float_def
      strip_def py_isspace_def startswith_minus_def int_of_digits_def is_digit_def
      digit_val_def)

lemma clean_sample_row_any:
  "clean_record sample_builtins c sample_row =
     (Some sample_sale, c\<lparr>c_records_processed := c_records_processed c + 1\<rparr>)"
  by (simp add: clean_record_def sample_row_def sample_sale_def
      sample_row_strings sample_row_numbers sample_date_parses)

lemma clean_sample_row:
  "clean_record sample_builtins cleaner_init sample_row =
     (Some sample_sale, \<lparr>c_records_processed = 1, c_records_dropped = 0\<rparr>)"
  by (simp add: clean_sample_row_any cleaner_init_def)

text \<open>
  C9, as amended. A quantity string is rejected when it starts with \<^verbatim>\<open>-\<close> once
  leading and trailing whitespace is trimmed (so also when it starts with \<^verbatim>\<open>-\<close> as it
  stands); otherwise every character other than a decimal digit is removed and the rest is
  read as an integer, which is kept only if it is strictly positive. An int or a float is
  kept, cast to an integer, only if it is strictly positive; \<^verbatim>\<open>None\<close> is rejected. A row
  whose raw quantity is the string \<^verbatim>\<open>-5\<close> is dropped.
\<close>

theorem clean_quantity_rules:
  "(startswith_minus s \<longrightarrow> clean_quantity (PStr s) = None) \<and>
   (startswith_minus (strip s) \<longrightarrow> clean_quantity (PStr s) = None) \<and>
   (\<not> startswith_minus (strip s) \<longrightarrow>
      clean_quantity (PStr s) =
        (case int_of_digits (filter is_digit s) of
           None \<Rightarrow> None
         | Some q \<Rightarrow> if q > 0 then Some q else None)) \<and>
   clean_quantity (PInt i) = (if i > 0 then Some i else None) \<and>
   clean_quantity (PFloat x) = (if x > 0 then Some \<lfloor>x\<rfloor> else None) \<and>
   clean_quantity PNone = None \<and>
   (raw_quantity r = PStr ''-5'' \<longrightarrow> fst (clean_record lib c r) = None)"
  using startswith_minus_strip[of s] clean_quantity_minus5 clean_quantity_dropped[of r lib c]
  by (auto simp: clean_quantity_def)

theorem clean_quantity_rules_witness:
  "startswith_minus ''-5'' \<and> startswith_minus (strip '' -5'') \<and>
   \<not> startswith_minus (strip ''1,200 pcs'') \<and>
   clean_quantity (PStr ''-5'') = None \<and>
   clean_quantity (PStr '' -5'') = None \<and>
   clean_quantity (PStr ''1,200 pcs'') = Some 1200 \<and>
   clean_quantity (PInt 3) = Some 3 \<and>
   clean_quantity (PFloat 2.5) = Some 2 \<and>
   raw_quantity (sample_row\<lparr>raw_quantity := PStr ''-5''\<rparr>) = PStr ''-5'' \<and>
   fst (clean_record sample_builtins cleaner_init (sample_row\<lparr>raw_quantity := PStr ''-5''\<rparr>))
     = None"
  using clean_quantity_rules[of "''-5''" 3 "2.5" "sample_row\<lparr>raw_quantity := PStr ''-5''\<rparr>"
          sample_builtins cleaner_init]
        clean_quantity_rules[of "'' -5''" 3 "2.5" "sample_row\<lparr>raw_quantity := PStr ''-5''\<rparr>"
          sample_builtins cleaner_init]
        clean_quantity_rules[of "''1,200 pcs''" 3 "2.5" "sample_row\<lparr>raw_quantity := PStr ''-5''\<rparr>"
          sample_builtins cleaner_init]
  by (simp add: strip_def py_isspace_def startswith_minus_def int_of_digits_def is_digit_def
      digit_val_def)

text \<open>
  C9, as stated, fails: the string \<^verbatim>\<open>" -5"\<close> does not start with \<^verbatim>\<open>-\<close>, so the stated
  rule removes the blank and the sign and accepts 5, while the code trims the string first
  and rejects it.
\<close>

theorem clean_quantity_leading_blank_counterexample:
  "\<not> startswith_minus '' -5'' \<and>
   spec_clean_quantity (PStr '' -5'') = Some 5 \<and>
   clean_quantity (PStr '' -5'') = None"
  by (simp add: spec_clean_quantity_def clean_quantity_def strip_def py_isspace_def
      startswith_minus_def int_of_digits_def is_digit_def digit_val_def)

text \<open>
  C4, as amended. A record that \<^verbatim>\<open>clean_record\<close> returns has an integer quantity, which
  is strictly positive whenever the raw quantity was not a float; a unit price that is a
  float of either sign; a discount that is a number in the closed interval from 0 to 1; a
  sale date; and a revenue equal to quantity * unit_price * (1 - discount_percent). A row
  for which any of the four cleaned fields is \<^verbatim>\<open>None\<close> is rejected.
\<close>

theorem clean_record_emits:
  "(clean_record lib c raw = (Some r, c') \<longrightarrow>
      (\<exists>q p d t.
         quantity r = Some q \<and>
         ((\<forall>x. raw_quantity raw \<noteq> PFloat x) \<longrightarrow> 0 < q) \<and>
         unit_price r = Some p \<and>
         discount_percent r = Some (Finite d) \<and> 0 \<le> d \<and> d \<le> 1 \<and>
         sale_date r = Some t \<and>
         revenue r = Some (fmul (fmul (Finite (of_int q)) p) (fsub (Finite 1) (Finite d))))) \<and>
   (clean_quantity (raw_quantity raw) = None \<or> clean_float lib (raw_unit_price raw) = None \<or>
    clean_discount lib (raw_discount_percent raw) = None \<or>
    clean_date lib (raw_sale_date raw) = None
      \<longrightarrow> fst (clean_record lib c raw) = None)"
proof (intro conjI impI)
  assume "clean_record lib c raw = (Some r, c')"
  then show "\<exists>q p d t.
         quantity r = Some q \<and>
         ((\<forall>x. raw_quantity raw \<noteq> PFloat x) \<longrightarrow> 0 < q) \<and>
         unit_price r = Some p \<and>
         discount_percent r = Some (Finite d) \<and> 0 \<le> d \<and> d \<le> 1 \<and>
         sale_date r = Some t \<and>
         revenue r = Some (fmul (fmul (Finite (of_int q)) p) (fsub (Finite 1) (Finite d)))"
    using clean_quantity_pos[of "raw_quantity raw"]
      clean_discount_range[of lib "raw_discount_percent raw"]
    by (auto simp: clean_record_def Let_def simp del: fsub_Finite split: option.splits)
next
  assume "clean_quantity (raw_quantity raw) = None \<or> clean_float lib (raw_unit_price raw) = None \<or>
    clean_discount lib (raw_discount_percent raw) = None \<or>
    clean_date lib (raw_sale_date raw) = None"
  then show "fst (clean_record lib c raw) = None"
    by (auto simp: clean_record_def Let_def split: option.splits)
qed

theorem clean_record_emits_witness:
  "clean_record sample_builtins cleaner_init sample_row =
     (Some sample_sale, \<lparr>c_records_processed = 1, c_records_dropped = 0\<rparr>) \<and>
   quantity sample_sale = Some 10 \<and> unit_price sample_sale = Some (Finite 1000) \<and>
   discount_percent sample_sale = Some (Finite (1 / 10)) \<and>
   sale_date sample_sale = Some sample_date \<and>
   revenue sample_sale =
     Some (fmul (fmul (Finite (of_int 10)) (Finite 1000)) (fsub (Finite 1) (Finite (1 / 10)))) \<and>
   clean_date sample_builtins (raw_sale_date (sample_row\<lparr>raw_sale_date := PStr ''invalid-date''\<rparr>))
     = None \<and>
   fst (clean_record sample_builtins cleaner_init
          (sample_row\<lparr>raw_sale_date := PStr ''invalid-date''\<rparr>)) = None"
  using clean_record_emits[of sample_builtins cleaner_init sample_row sample_sale
          "\<lparr>c_records_processed = 1, c_records_dropped = 0\<rparr>"]
        clean_record_emits[of sample_builtins cleaner_init
          "sample_row\<lparr>raw_sale_date := PStr ''invalid-date''\<rparr>"]
        clean_sample_row
  by (simp add: sample_sale_def clean_date_def date_formats_def sample_builtins_def
      strip_def py_isspace_def)

text \<open>
  C4, as stated, fails: nothing checks the sign of the unit price. The sample row with the
  unit price \<^verbatim>\<open>-5.0\<close> is kept, with unit price -5 and revenue 10 * (-5) * 0.9 = -45.
\<close>

theorem clean_record_negative_price_counterexample:
  "fst (clean_record sample_builtins cleaner_init (sample_row\<lparr>raw_unit_price := PStr ''-5.0''\<rparr>))
     = Some (sample_sale\<lparr>unit_price := Some (Finite (- 5)),
                          revenue := Some (Finite (- 45))\<rparr>)"
  by (simp add: clean_record_def sample_row_def sample_sale_def cleaner_init_def
      sample_row_strings sample_row_numbers sample_date_parses)

section \<open>Properties of the aggregator and the pipeline\<close>

lemma concat_chunk_loop: "concat (chunk_loop n chunk rows) = chunk @ rows"
  by (induction rows arbitrary: chunk) auto

lemma concat_read_in_chunks: "concat (read_in_chunks n rows) = rows"
  by (simp add: read_in_chunks_def concat_chunk_loop)

lemma clean_chunk_append:
  "clean_chunk lib c (xs @ ys) =
     (case clean_chunk lib c xs of (as, c1) \<Rightarrow>
        case clean_chunk lib c1 ys of (bs, c2) \<Rightarrow> (as @ bs, c2))"
  by (induction xs arbitrary: c) (auto split: prod.splits option.splits)

lemma process_chunk_append:
  "process_chunk s (xs @ ys) = process_chunk (process_chunk s xs) ys"
  by (simp add: process_chunk_def)

lemma process_raw_chunk_eq:
  "process_raw_chunk lib pl ch =
     (case clean_chunk lib (p_cleaner pl) ch of
        (cl, c') \<Rightarrow> pl\<lparr>p_cleaner := c', p_aggregator := process_chunk (p_aggregator pl) cl\<rparr>)"
  by (simp add: process_raw_chunk_def process_chunk_def split: prod.splits)

lemma foldl_process_raw_chunk:
  "foldl (process_raw_chunk lib) pl chunks =
     (case clean_chunk lib (p_cleaner pl) (concat chunks) of
        (cl, c') \<Rightarrow> pl\<lparr>p_cleaner := c', p_aggregator := process_chunk (p_aggregator pl) cl\<rparr>)"
proof (induction chunks arbitrary: pl)
  case Nil
  then show ?case by (simp add: process_chunk_def)
next
  case (Cons ch chunks)
  have "foldl (process_raw_chunk lib) pl (ch # chunks) =
        (case clean_chunk lib (p_cleaner (process_raw_chunk lib pl ch)) (concat chunks) of
           (cl, c') \<Rightarrow> (process_raw_chunk lib pl ch)\<lparr>p_cleaner := c',
              p_aggregator := process_chunk (p_aggregator (process_raw_chunk lib pl ch)) cl\<rparr>)"
    by (simp add: Cons.IH)
  also have "\<dots> =
        (case clean_chunk lib (p_cleaner pl) (concat (ch # chunks)) of
           (cl, c') \<Rightarrow> pl\<lparr>p_cleaner := c', p_aggregator := process_chunk (p_aggregator pl) cl\<rparr>)"
    by (simp add: process_raw_chunk_eq clean_chunk_append process_chunk_append
        split: prod.splits)
  finally show ?case .
qed

lemma process_chunks_eq:
  "process_chunks lib pl rows =
     (case clean_chunk lib (p_cleaner pl) rows of
        (cl, c') \<Rightarrow> pl\<lparr>p_cleaner := c', p_aggregator := process_chunk (p_aggregator pl) cl\<rparr>)"
  by (simp add: process_chunks_def foldl_process_raw_chunk concat_read_in_chunks)

lemma DataPipeline_init_eq:
  "DataPipeline_init cs cfg = Inr pl \<longleftrightarrow>
   pl = \<lparr>p_chunk_size = cs, p_cleaner = cleaner_init,
         p_aggregator =
           reset_aggregations (ANOMALY_RECORDS_LIMIT cfg) (TOP_PRODUCTS_LIMIT cfg)\<rparr>"
  by (auto simp: DataPipeline_init_def DataAggregator_init_def)

lemma sample_pipeline_init: "DataPipeline_init n sample_config = Inr (sample_pipeline n)"
  by (simp add: DataPipeline_init_def DataAggregator_init_def sample_pipeline_def
      sample_config_def)

text \<open>
  C1. Two pipelines built from the same configuration with any two batch sizes (positive
  or not) and run on the same rows leave the aggregator in the same state before
  finalization, so every accumulator of every monthly, product, region and category key is
  the same, and they return the same finalized result and the same cleaning counters.
\<close>

theorem chunking_invariance:
  assumes "DataPipeline_init c1 cfg = Inr pl1" and "DataPipeline_init c2 cfg = Inr pl2"
  shows "p_aggregator (process_chunks lib pl1 rows) = p_aggregator (process_chunks lib pl2 rows) \<and>
         run lib pl1 rows = run lib pl2 rows"
  using assms
  by (simp add: DataPipeline_init_eq run_def process_chunks_eq Let_def
      split: prod.splits option.splits)

theorem chunking_invariance_witness:
  "DataPipeline_init 1 sample_config = Inr (sample_pipeline 1) \<and>
   DataPipeline_init 10000 sample_config = Inr (sample_pipeline 10000) \<and>
   read_in_chunks 1 [sample_row, sample_row] = [[sample_row], [sample_row]] \<and>
   read_in_chunks 10000 [sample_row, sample_row] = [[sample_row, sample_row]] \<and>
   run sample_builtins (sample_pipeline 1) [sample_row, sample_row] =
     run sample_builtins (sample_pipeline 10000) [sample_row, sample_row]"
  using chunking_invariance[of 1 sample_config "sample_pipeline 1" 10000 "sample_pipeline 10000"
          sample_builtins "[sample_row, sample_row]"]
  by (simp add: sample_pipeline_init read_in_chunks_def)

lemma sum_upd:
  fixes g :: "'v \<Rightarrow> int"
  assumes "\<And>v. g (f v) = g v + x" and "g d = 0"
  shows "sum_list (map (\<lambda>kv. g (snd kv)) (upd d f k kvs)) =
         sum_list (map (\<lambda>kv. g (snd kv)) kvs) + x"
  using assms by (induction kvs) auto

lemma update_anomaly_records_only:
  "fst (update_anomaly_records s a) =
     s\<lparr>anomaly_records := anomaly_records (fst (update_anomaly_records s a))\<rparr>"
  by (simp add: update_anomaly_records_def Let_def)

lemma detect_only:
  "fst (detect_and_update_anomalies s r rvn q p d) =
     s\<lparr>anomaly_records := anomaly_records (fst (detect_and_update_anomalies s r rvn q p d))\<rparr>"
  using update_anomaly_records_only
  by (simp add: detect_and_update_anomalies_def split: sum.splits prod.splits)

lemma detect_monthly [simp]:
  "monthly_sales (fst (detect_and_update_anomalies s r rvn q p d)) = monthly_sales s"
  "region_sales (fst (detect_and_update_anomalies s r rvn q p d)) = region_sales s"
  "product_sales (fst (detect_and_update_anomalies s r rvn q p d)) = product_sales s"
  "category_discounts (fst (detect_and_update_anomalies s r rvn q p d)) = category_discounts s"
  "records_processed (fst (detect_and_update_anomalies s r rvn q p d)) = records_processed s"
  "revenue_stats (fst (detect_and_update_anomalies s r rvn q p d)) = revenue_stats s"
  "quantity_stats (fst (detect_and_update_anomalies s r rvn q p d)) = quantity_stats s"
  "price_stats (fst (detect_and_update_anomalies s r rvn q p d)) = price_stats s"
  "anomaly_limit (fst (detect_and_update_anomalies s r rvn q p d)) = anomaly_limit s"
  "top_products_limit (fst (detect_and_update_anomalies s r rvn q p d)) = top_products_limit s"
  by (subst detect_only, simp)+

lemma update_statistics_fields [simp]:
  "monthly_sales (update_statistics s rvn q p) = monthly_sales s"
  "region_sales (update_statistics s rvn q p) = region_sales s"
  "product_sales (update_statistics s rvn q p) = product_sales s"
  "category_discounts (update_statistics s rvn q p) = category_discounts s"
  "anomaly_records (update_statistics s rvn q p) = anomaly_records s"
  "records_processed (update_statistics s rvn q p) = records_processed s"
  "anomaly_limit (update_statistics s rvn q p) = anomaly_limit s"
  "top_products_limit (update_statistics s rvn q p) = top_products_limit s"
  by (simp_all add: update_statistics_def)

lemma update_buckets_fields [simp]:
  "anomaly_records (update_buckets s r rvn q d t) = anomaly_records s"
  "records_processed (update_buckets s r rvn q d t) = records_processed s"
  "anomaly_limit (update_buckets s r rvn q d t) = anomaly_limit s"
  "top_products_limit (update_buckets s r rvn q d t) = top_products_limit s"
  "revenue_stats (update_buckets s r rvn q d t) = revenue_stats s"
  "quantity_stats (update_buckets s r rvn q d t) = quantity_stats s"
  "price_stats (update_buckets s r rvn q d t) = price_stats s"
  by (simp_all add: update_buckets_def)

lemma process_record_cases:
  "process_record s r =
     (case required_fields r of
        None \<Rightarrow> s
      | Some (q, p, d, t, rvn) \<Rightarrow>
          (let res = detect_and_update_anomalies
                       (update_buckets (update_statistics s rvn q p) r rvn q d t) r rvn q p d
           in if snd res = None then (fst res)\<lparr>records_processed := records_processed s + 1\<rparr>
              else fst res))"
proof (cases "required_fields r")
  case None
  then show ?thesis by (simp add: process_record_def process_single_record_def)
next
  case (Some a)
  obtain q p d t rvn where a: "a = (q, p, d, t, rvn)" by (metis prod_cases5)
  let ?s2 = "update_buckets (update_statistics s rvn q p) r rvn q d t"
  obtain s' e where res: "detect_and_update_anomalies ?s2 r rvn q p d = (s', e)"
    by fastforce
  have "records_processed s' = records_processed s"
    using detect_monthly(5)[of ?s2 r rvn q p d] res by simp
  then show ?thesis
    using Some a res
    by (cases e) (simp_all add: process_record_def process_single_record_def)
qed

lemma update_buckets_quantity:
  "monthly_quantity (update_buckets s r rvn q d t) = monthly_quantity s + q"
  "region_quantity (update_buckets s r rvn q d t) = region_quantity s + q"
  by (simp_all add: monthly_quantity_def region_quantity_def update_buckets_def sum_upd
      monthly_default_def sales_default_def)

lemma update_statistics_quantity [simp]:
  "monthly_quantity (update_statistics s rvn q p) = monthly_quantity s"
  "region_quantity (update_statistics s rvn q p) = region_quantity s"
  by (simp_all add: monthly_quantity_def region_quantity_def update_statistics_def)

lemma detect_quantity [simp]:
  "monthly_quantity (fst (detect_and_update_anomalies s r rvn q p d)) = monthly_quantity s"
  "region_quantity (fst (detect_and_update_anomalies s r rvn q p d)) = region_quantity s"
  by (simp_all add: monthly_quantity_def region_quantity_def)

lemma records_processed_quantity [simp]:
  "monthly_quantity (s\<lparr>records_processed := n\<rparr>) = monthly_quantity s"
  "region_quantity (s\<lparr>records_processed := n\<rparr>) = region_quantity s"
  by (simp_all add: monthly_quantity_def region_quantity_def)

lemma process_record_quantity:
  "monthly_quantity (process_record s r) = monthly_quantity s + ingested_quantity r"
  "region_quantity (process_record s r) = region_quantity s + ingested_quantity r"
  by (auto simp: process_record_cases ingested_quantity_def Let_def update_buckets_quantity
      split: option.splits)

lemma process_chunk_quantity:
  "monthly_quantity (process_chunk s recs) = monthly_quantity s + sum_list (map ingested_quantity recs)"
  "region_quantity (process_chunk s recs) = region_quantity s + sum_list (map ingested_quantity recs)"
  unfolding process_chunk_def
  by (induction recs arbitrary: s) (simp_all add: process_record_quantity)


lemma clean_record_ingested:
  "clean_record lib c raw = (Some r, c') \<Longrightarrow> ingested_quantity r = quantity_of r"
  by (auto simp: clean_record_def Let_def ingested_quantity_def quantity_of_def required_fields_def
      split: option.splits)

lemma clean_chunk_ingested:
  "sum_list (map ingested_quantity (fst (clean_chunk lib c rows))) =
   sum_list (map quantity_of (fst (clean_chunk lib c rows)))"
proof (induction rows arbitrary: c)
  case Nil
  then show ?case by simp
next
  case (Cons row rows)
  obtain res c1 where rc: "clean_record lib c row = (res, c1)" by fastforce
  obtain cs c2 where cc: "clean_chunk lib c1 rows = (cs, c2)" by fastforce
  show ?case
    using Cons.IH[of c1] rc cc clean_record_ingested[of lib c row _ c1]
    by (cases res) simp_all
qed

lemma clean_chunk_fst_indep:
  "fst (clean_chunk lib c rows) = fst (clean_chunk lib c' rows)"
proof (induction rows arbitrary: c c')
  case Nil
  then show ?case by simp
next
  case (Cons row rows)
  have "fst (clean_record lib c row) = fst (clean_record lib c' row)"
    by (simp add: clean_record_def Let_def split: option.splits)
  then show ?case
    using Cons.IH[of "snd (clean_record lib c row)" "snd (clean_record lib c' row)"]
    by (auto split: prod.splits option.splits)
qed

lemma finalize_quantity:
  "sum_list (map (\<lambda>kv. mf_quantity (snd kv))
     (f_monthly_sales (fst (finalize_aggregations s)))) = monthly_quantity s"
  "sum_list (map (\<lambda>kv. b_quantity (snd kv))
     (f_region_sales (fst (finalize_aggregations s)))) = region_quantity s"
  by (simp_all add: finalize_aggregations_def monthly_quantity_def region_quantity_def
      finalize_monthly_def comp_def case_prod_unfold)

lemma run_result:
  "run lib pl rows = Inr (fin, c) \<Longrightarrow>
   fin = fst (finalize_aggregations (p_aggregator (process_chunks lib pl rows))) \<and>
   c = p_cleaner (process_chunks lib pl rows)"
  by (auto simp: run_def Let_def split: prod.splits option.splits)

text \<open>
  C8. For a pipeline built by the constructor and run on any rows with any batch size, the
  quantities of the finalized monthly buckets and the quantities of the finalized region
  buckets have the same sum, and that sum is the total quantity of the records that the
  cleaner emitted. This holds of the state that \<^verbatim>\<open>finalize_aggregations\<close> leaves, which
  is the result of every run that returns.
\<close>

theorem quantity_totals_agree:
  assumes "DataPipeline_init cs cfg = Inr pl"
  shows "let fin = fst (finalize_aggregations (p_aggregator (process_chunks lib pl rows))) in
         sum_list (map (\<lambda>kv. mf_quantity (snd kv)) (f_monthly_sales fin)) =
           sum_list (map (\<lambda>kv. b_quantity (snd kv)) (f_region_sales fin)) \<and>
         sum_list (map (\<lambda>kv. b_quantity (snd kv)) (f_region_sales fin)) =
           sum_list (map quantity_of (fst (clean_chunk lib cleaner_init rows))) \<and>
         (\<forall>res c. run lib pl rows = Inr (res, c) \<longrightarrow> res = fin)"
proof -
  obtain cl c1 where cc: "clean_chunk lib cleaner_init rows = (cl, c1)" by fastforce
  have pl: "p_cleaner pl = cleaner_init" "monthly_quantity (p_aggregator pl) = 0"
    "region_quantity (p_aggregator pl) = 0"
    using assms(1)
    by (simp_all add: DataPipeline_init_eq monthly_quantity_def region_quantity_def
        reset_aggregations_def)
  have agg: "p_aggregator (process_chunks lib pl rows) = process_chunk (p_aggregator pl) cl"
    using cc pl(1) by (simp add: process_chunks_eq)
  show ?thesis
    unfolding Let_def
    using clean_chunk_ingested[of lib cleaner_init rows] cc run_result[of lib pl rows]
    by (auto simp: agg finalize_quantity process_chunk_quantity pl)
qed

theorem quantity_totals_agree_witness:
  "DataPipeline_init 1 sample_config = Inr (sample_pipeline 1) \<and>
   fst (clean_chunk sample_builtins cleaner_init
          [sample_row, sample_row\<lparr>raw_quantity := PStr ''-5''\<rparr>, sample_row]) =
     [sample_sale, sample_sale] \<and>
   sum_list (map (\<lambda>kv. mf_quantity (snd kv))
     (f_monthly_sales (fst (finalize_aggregations (p_aggregator
        (process_chunks sample_builtins (sample_pipeline 1)
           [sample_row, sample_row\<lparr>raw_quantity := PStr ''-5''\<rparr>, sample_row])))))) = 20 \<and>
   sum_list (map (\<lambda>kv. b_quantity (snd kv))
     (f_region_sales (fst (finalize_aggregations (p_aggregator
        (process_chunks sample_builtins (sample_pipeline 1)
           [sample_row, sample_row\<lparr>raw_quantity := PStr ''-5''\<rparr>, sample_row])))))) = 20 \<and>
   run sample_builtins (sample_pipeline 1)
       [sample_row, sample_row\<lparr>raw_quantity := PStr ''-5''\<rparr>, sample_row] =
     Inr (fst (finalize_aggregations (p_aggregator
            (process_chunks sample_builtins (sample_pipeline 1)
               [sample_row, sample_row\<lparr>raw_quantity := PStr ''-5''\<rparr>, sample_row]))),
          \<lparr>c_records_processed = 3, c_records_dropped = 1\<rparr>)"
proof -
  have drop: "clean_record sample_builtins c (sample_row\<lparr>raw_quantity := PStr ''-5''\<rparr>) =
      (None, c\<lparr>c_records_processed := c_records_processed c + 1,
                c_records_dropped := c_records_dropped c + 1\<rparr>)" for c
    by (rule clean_quantity_dropped) (simp add: clean_quantity_minus5)
  have cleaned: "fst (clean_chunk sample_builtins cleaner_init
          [sample_row, sample_row\<lparr>raw_quantity := PStr ''-5''\<rparr>, sample_row]) =
     [sample_sale, sample_sale]"
    by (simp add: clean_sample_row_any drop)
  note th = quantity_totals_agree[OF sample_pipeline_init[of 1], where lib = sample_builtins
      and rows = "[sample_row, sample_row\<lparr>raw_quantity := PStr ''-5''\<rparr>, sample_row]",
      unfolded cleaned Let_def]
  have q: "sum_list (map quantity_of [sample_sale, sample_sale]) = 20"
    by (simp add: quantity_of_def sample_sale_def)
  have sums: "sum_list (map (\<lambda>kv. mf_quantity (snd kv))
     (f_monthly_sales (fst (finalize_aggregations (p_aggregator
        (process_chunks sample_builtins (sample_pipeline 1)
           [sample_row, sample_row\<lparr>raw_quantity := PStr ''-5''\<rparr>, sample_row])))))) = 20"
    "sum_list (map (\<lambda>kv. b_quantity (snd kv))
     (f_region_sales (fst (finalize_aggregations (p_aggregator
        (process_chunks sample_builtins (sample_pipeline 1)
           [sample_row, sample_row\<lparr>raw_quantity := PStr ''-5''\<rparr>, sample_row])))))) = 20"
    using th q by simp_all
  have returns: "run sample_builtins (sample_pipeline 1)
       [sample_row, sample_row\<lparr>raw_quantity := PStr ''-5''\<rparr>, sample_row] =
     Inr (fst (finalize_aggregations (p_aggregator
            (process_chunks sample_builtins (sample_pipeline 1)
               [sample_row, sample_row\<lparr>raw_quantity := PStr ''-5''\<rparr>, sample_row]))),
          \<lparr>c_records_processed = 3, c_records_dropped = 1\<rparr>)"
    by code_simp
  show ?thesis
    using sample_pipeline_init[of 1] cleaned sums returns by blast
qed

lemma missing_fields_unchanged:
  "required_fields r = None \<Longrightarrow> process_single_record s r = (s, Some ValueError)"
  by (simp add: process_single_record_def)

lemma detect_error_unchanged:
  "detect_and_update_anomalies s r rvn q p d = (s', Some e) \<Longrightarrow> s' = s"
  by (auto simp: detect_and_update_anomalies_def update_anomaly_records_def Let_def
      split: sum.splits prod.splits if_splits)

text \<open>
  C10. When a record passes the required-fields check and \<^verbatim>\<open>_process_single_record\<close>
  then raises, \<^verbatim>\<open>process_chunk\<close> absorbs the exception and goes on with the next record
  from the state the failing record left: its updates of the running statistics and of the
  four buckets stay, and \<^verbatim>\<open>records_processed\<close> is not incremented. That state differs
  from the one before the record, and its statistics count one record more than
  \<^verbatim>\<open>records_processed\<close> accounts for.
\<close>

theorem failure_keeps_partial_updates:
  assumes "required_fields r = Some (q, p, d, t, rvn)"
      and "process_single_record s r = (s', Some e)"
  shows "s' = update_buckets (update_statistics s rvn q p) r rvn q d t \<and>
         process_record s r = s' \<and>
         process_chunk s (r # rs) = process_chunk s' rs \<and>
         records_processed s' = records_processed s \<and>
         st_count (revenue_stats s') = st_count (revenue_stats s) + 1 \<and>
         s' \<noteq> s"
proof -
  have s': "s' = update_buckets (update_statistics s rvn q p) r rvn q d t"
    using assms detect_error_unchanged by (simp add: process_single_record_def)
  have cnt: "st_count (revenue_stats s') = st_count (revenue_stats s) + 1"
    by (simp add: s' update_statistics_def update_stat_def)
  then have "s' \<noteq> s" by auto
  then show ?thesis
    using assms(2) cnt
    by (simp add: process_record_def process_chunk_def) (simp add: s')
qed

lemma big_sale_required:
  "required_fields big_sale =
     Some (200, Finite 1000, Finite (1 / 10), sample_date, Finite 180000)"
  by (simp add: required_fields_def big_sale_def)

lemma big_sale_score:
  "records_processed s \<le> 100 \<Longrightarrow>
   score_record s (Finite 180000) 200 (Finite 1000) (Finite (1 / 10)) =
     Inr (3, [HighValueTransaction, LargeQuantityExpensiveItems])"
  by (simp add: score_record_def discount_anomaly_checks_def revenue_threshold_anomaly_def
      extreme_combination_anomaly_def)

theorem failure_keeps_partial_updates_witness:
  "required_fields big_sale = Some (200, Finite 1000, Finite (1 / 10), sample_date, Finite 180000) \<and>
   process_single_record (reset_aggregations 0 10) big_sale =
     (update_buckets (update_statistics (reset_aggregations 0 10) (Finite 180000) 200 (Finite 1000))
        big_sale (Finite 180000) 200 (Finite (1 / 10)) sample_date, Some IndexError) \<and>
   region_sales (process_record (reset_aggregations 0 10) big_sale) =
     [(Some ''North'', \<lparr>b_revenue = Finite 180000, b_quantity = 200\<rparr>)] \<and>
   st_count (revenue_stats (process_record (reset_aggregations 0 10) big_sale)) = 1 \<and>
   records_processed (process_record (reset_aggregations 0 10) big_sale) = 0"
proof -
  let ?s2 = "update_buckets (update_statistics (reset_aggregations 0 10) (Finite 180000) 200 (Finite 1000))
        big_sale (Finite 180000) 200 (Finite (1 / 10)) sample_date"
  have "records_processed ?s2 \<le> 100" by (simp add: reset_aggregations_def)
  then have run: "process_single_record (reset_aggregations 0 10) big_sale = (?s2, Some IndexError)"
    by (simp add: process_single_record_def big_sale_required detect_and_update_anomalies_def
        big_sale_score update_anomaly_records_def reset_aggregations_def)
  have pr: "process_record (reset_aggregations 0 10) big_sale = ?s2"
    using failure_keeps_partial_updates[OF big_sale_required run, of "[]"] by blast
  have a: "region_sales ?s2 = [(Some ''North'', \<lparr>b_revenue = Finite 180000, b_quantity = 200\<rparr>)]"
    by (simp add: update_buckets_def update_statistics_def reset_aggregations_def
        sales_default_def big_sale_def)
  have b: "st_count (revenue_stats ?s2) = 1"
    by (simp add: update_statistics_def update_stat_def reset_aggregations_def stat_init_def)
  have c: "records_processed ?s2 = 0"
    by (simp add: reset_aggregations_def)
  show ?thesis
    unfolding pr using big_sale_required run a b c by blast
qed

lemma update_statistics_counts:
  "st_count (revenue_stats (update_statistics s rvn q p)) \<noteq> 0"
  "st_count (quantity_stats (update_statistics s rvn q p)) \<noteq> 0"
  "st_count (price_stats (update_statistics s rvn q p)) \<noteq> 0"
  by (simp_all add: update_statistics_def update_stat_def)

lemma score_record_formula:
  assumes "st_count (revenue_stats s) \<noteq> 0" "st_count (quantity_stats s) \<noteq> 0"
    "st_count (price_stats s) \<noteq> 0"
  shows "\<exists>reasons. score_record s rvn q p d =
     Inr (spec_score (records_processed s) (running_mean (revenue_stats s))
            (running_mean_int (quantity_stats s)) (running_mean (price_stats s)) rvn q p d,
          reasons)"
  using assms
  by (simp add: score_record_def statistical_anomaly_checks_def discount_anomaly_checks_def
      revenue_threshold_anomaly_def extreme_combination_anomaly_def spec_score_def
      running_mean_def running_mean_int_def Let_def fmul_commute[of _ "Finite 10"]
      fmul_commute[of _ "Finite 5"])


text \<open>
  C6. For a record that passes the required-fields check, the score that
  \<^verbatim>\<open>_detect_and_update_anomalies\<close> computes is the sum of: 3 if revenue > 10 * mean revenue,
  2 if quantity > 5 * mean quantity, 2 if unit price > 5 * mean unit price (these three only
  when \<^verbatim>\<open>records_processed\<close> is above 100; the means are the running totals divided by
  the running counts, this record included), 1 if discount > 0.7, 2 if unit price > 1000 and
  discount > 0.5, 1 if revenue > 50000, and 2 if quantity > 100 and unit price > 500. The
  record is handed to \<^verbatim>\<open>_update_anomaly_records\<close> with that score exactly when the score
  is at least 2; otherwise the anomaly list is left alone.
\<close>

theorem anomaly_score_formula:
  assumes "required_fields r = Some (q, p, d, t, rvn)"
  shows "let s2 = update_buckets (update_statistics s rvn q p) r rvn q d t;
             score = spec_score (records_processed s) (running_mean (revenue_stats s2))
                       (running_mean_int (quantity_stats s2)) (running_mean (price_stats s2))
                       rvn q p d
         in \<exists>reasons.
              score_record s2 rvn q p d = Inr (score, reasons) \<and>
              process_single_record s r =
                (if score \<ge> 2
                 then update_anomaly_records s2
                        \<lparr>a_record = r, a_revenue = rvn, anomaly_score = score,
                         anomaly_reasons = reasons\<rparr>
                 else (s2, None))"
proof -
  let ?s2 = "update_buckets (update_statistics s rvn q p) r rvn q d t"
  obtain reasons where sc: "score_record ?s2 rvn q p d =
     Inr (spec_score (records_processed ?s2) (running_mean (revenue_stats ?s2))
            (running_mean_int (quantity_stats ?s2)) (running_mean (price_stats ?s2)) rvn q p d,
          reasons)"
    using score_record_formula[of ?s2 rvn q p d] update_statistics_counts[of s rvn q p]
    by auto
  show ?thesis
    unfolding Let_def
    by (rule exI[of _ reasons])
       (use sc assms in \<open>simp add: process_single_record_def detect_and_update_anomalies_def\<close>)
qed

theorem anomaly_score_formula_witness:
  "required_fields big_sale = Some (200, Finite 1000, Finite (1 / 10), sample_date, Finite 180000) \<and>
   spec_score 0 (Finite 180000) (Finite 200) (Finite 1000) (Finite 180000) 200 (Finite 1000) (Finite (1 / 10)) = 3 \<and>
   process_single_record (reset_aggregations 5 10) big_sale =
     update_anomaly_records
       (update_buckets (update_statistics (reset_aggregations 5 10) (Finite 180000) 200 (Finite 1000))
          big_sale (Finite 180000) 200 (Finite (1 / 10)) sample_date)
       \<lparr>a_record = big_sale, a_revenue = Finite 180000, anomaly_score = 3,
        anomaly_reasons = [HighValueTransaction, LargeQuantityExpensiveItems]\<rparr>"
proof -
  let ?s2 = "update_buckets (update_statistics (reset_aggregations 5 10) (Finite 180000) 200 (Finite 1000))
          big_sale (Finite 180000) 200 (Finite (1 / 10)) sample_date"
  have means: "running_mean (revenue_stats ?s2) = Finite 180000"
    "running_mean_int (quantity_stats ?s2) = Finite 200"
    "running_mean (price_stats ?s2) = Finite 1000"
    by (simp_all add: running_mean_def running_mean_int_def update_statistics_def
        update_stat_def reset_aggregations_def stat_init_def)
  have rp: "records_processed (reset_aggregations 5 10) = 0"
    by (simp add: reset_aggregations_def)
  have sc: "score_record ?s2 (Finite 180000) 200 (Finite 1000) (Finite (1 / 10)) =
     Inr (3, [HighValueTransaction, LargeQuantityExpensiveItems])"
    by (rule big_sale_score) (simp add: rp)
  have sp: "spec_score 0 (Finite 180000) (Finite 200) (Finite 1000) (Finite 180000) 200 (Finite 1000) (Finite (1 / 10)) = 3"
    by (simp add: spec_score_def)
  show ?thesis
    using anomaly_score_formula[OF big_sale_required, of "reset_aggregations 5 10"]
    by (simp add: Let_def means rp sc sp big_sale_required)
qed

text \<open>
  C3, as amended. Construction never fails on the limits: \<^verbatim>\<open>DataAggregator\<close> and
  \<^verbatim>\<open>DataPipeline\<close> store any anomaly limit, top-products limit and batch size, positive or
  not, and return the object. The only check is \<^verbatim>\<open>Config.validate_config\<close>, which
  reports each of the three settings as a boolean that is true exactly when the setting is
  positive, and raises nothing.
\<close>

theorem construction_accepts_any_limits:
  "DataAggregator_init a_limit t_limit = Inr (reset_aggregations a_limit t_limit) \<and>
   anomaly_limit (reset_aggregations a_limit t_limit) = a_limit \<and>
   top_products_limit (reset_aggregations a_limit t_limit) = t_limit \<and>
   DataPipeline_init chunk_size cfg =
     Inr \<lparr>p_chunk_size = chunk_size, p_cleaner = cleaner_init,
          p_aggregator =
            reset_aggregations (ANOMALY_RECORDS_LIMIT cfg) (TOP_PRODUCTS_LIMIT cfg)\<rparr> \<and>
   v_chunk_size (validate_config cfg) = (0 < DEFAULT_CHUNK_SIZE cfg) \<and>
   v_anomaly_limit (validate_config cfg) = (0 < ANOMALY_RECORDS_LIMIT cfg) \<and>
   v_top_products_limit (validate_config cfg) = (0 < TOP_PRODUCTS_LIMIT cfg)"
  by (simp add: DataAggregator_init_def DataPipeline_init_def reset_aggregations_def
      validate_config_def)

text \<open>
  C3, as stated, fails: with batch size 0, anomaly limit 0 and top-products limit -1 both
  constructors return an object, and no error.
\<close>

theorem construction_nonpositive_counterexample:
  "DataAggregator_init 0 (- 1) = Inr (reset_aggregations 0 (- 1)) \<and>
   DataPipeline_init 0
     \<lparr>DEFAULT_CHUNK_SIZE = 0, ANOMALY_RECORDS_LIMIT = 0, TOP_PRODUCTS_LIMIT = - 1\<rparr> =
     Inr \<lparr>p_chunk_size = 0, p_cleaner = cleaner_init,
          p_aggregator = reset_aggregations 0 (- 1)\<rparr>"
  by (simp add: DataAggregator_init_def DataPipeline_init_def)

section \<open>The anomaly list and the top products\<close>

lemma sort_desc_foldr: "sort_desc lt f xs = foldr (place lt f) xs []"
  by (simp add: sort_desc_def sort_asc_def foldr_conv_foldl)

lemma mset_place: "mset (place lt f x ys) = add_mset x (mset ys)"
  by (induction ys) simp_all

lemma set_place: "set (place lt f x ys) = insert x (set ys)"
  by (induction ys) auto

lemma mset_sort_desc [simp]: "mset (sort_desc lt f xs) = mset xs"
  unfolding sort_desc_foldr by (induction xs) (simp_all add: mset_place)

lemma length_sort_desc [simp]: "length (sort_desc lt f xs) = length xs"
  by (metis mset_sort_desc size_mset)

lemma set_sort_desc [simp]: "set (sort_desc lt f xs) = set xs"
  by (metis mset_sort_desc set_mset_mset)

text \<open>The sort leaves entries with the same key in their order, whatever the keys.\<close>

lemma place_stable:
  assumes "\<And>a. \<not> lt a a"
  shows "filter (\<lambda>y. f y = k) (place lt f x ys) =
         (if f x = k then x # filter (\<lambda>y. f y = k) ys else filter (\<lambda>y. f y = k) ys)"
  using assms by (induction ys) auto

lemma sort_desc_stable:
  assumes "\<And>a. \<not> lt a a"
  shows "filter (\<lambda>y. f y = k) (sort_desc lt f xs) = filter (\<lambda>y. f y = k) xs"
  unfolding sort_desc_foldr by (induction xs) (simp_all add: place_stable[OF assms])

text \<open>Where the keys met are ordered (\<open>ok\<close>: not NaN), the result is descending.\<close>

lemma place_sorted:
  assumes asym: "\<And>a b. lt a b \<Longrightarrow> \<not> lt b a"
    and negtrans: "\<And>a b c. ok b \<Longrightarrow> \<not> lt a b \<Longrightarrow> \<not> lt b c \<Longrightarrow> \<not> lt a c"
    and "sorted_wrt (\<lambda>a b. \<not> lt (f a) (f b)) ys"
    and "list_all (\<lambda>y. ok (f y)) ys"
  shows "sorted_wrt (\<lambda>a b. \<not> lt (f a) (f b)) (place lt f x ys)"
  using assms(3,4)
proof (induction ys)
  case Nil
  then show ?case by simp
next
  case (Cons y ys)
  show ?case
  proof (cases "lt (f x) (f y)")
    case True
    then show ?thesis
      using Cons asym[of "f x" "f y"] by (simp add: set_place)
  next
    case False
    have "\<not> lt (f x) (f z)" if "z \<in> set ys" for z
      using that False Cons.prems negtrans[of "f y" "f x" "f z"] by simp
    then show ?thesis
      using False Cons.prems by simp
  qed
qed

lemma sort_desc_sorted:
  assumes asym: "\<And>a b. lt a b \<Longrightarrow> \<not> lt b a"
    and negtrans: "\<And>a b c. ok b \<Longrightarrow> \<not> lt a b \<Longrightarrow> \<not> lt b c \<Longrightarrow> \<not> lt a c"
    and "list_all (\<lambda>y. ok (f y)) xs"
  shows "sorted_wrt (\<lambda>a b. \<not> lt (f a) (f b)) (sort_desc lt f xs)"
  using assms(3) unfolding sort_desc_foldr
proof (induction xs)
  case Nil
  then show ?case by simp
next
  case (Cons x xs)
  have "list_all (\<lambda>y. ok (f y)) (foldr (place lt f) xs [])"
    using Cons.prems set_sort_desc[of lt f xs]
    unfolding sort_desc_foldr by (simp add: list_all_iff)
  then show ?case
    using Cons
      place_sorted[where lt = lt and ok = ok and f = f and ys = "foldr (place lt f) xs []"
        and x = x, OF asym negtrans]
    by simp
qed

text \<open>A list in which no entry is less than the one before it is left as it is.\<close>

lemma sort_asc_unchanged:
  assumes "successively (\<lambda>a b. \<not> lt (f b) (f a)) xs"
  shows "sort_asc lt f xs = xs"
  using assms
proof (induction xs rule: rev_induct)
  case Nil
  then show ?case by (simp add: sort_asc_def)
next
  case (snoc x xs)
  have xs: "foldl (\<lambda>prefix x. place lt f x prefix) [] xs = rev xs"
    using snoc by (simp add: sort_asc_def successively_append_iff rev_swap)
  show ?case
  proof (cases xs rule: rev_cases)
    case Nil
    then show ?thesis by (simp add: sort_asc_def)
  next
    case (snoc ys y)
    then have "\<not> lt (f x) (f y)"
      using \<open>successively (\<lambda>a b. \<not> lt (f b) (f a)) (xs @ [x])\<close>
      by (simp add: successively_append_iff)
    then show ?thesis
      using xs snoc by (simp add: sort_asc_def)
  qed
qed

lemma key_lt_asym: "key_lt a b \<Longrightarrow> \<not> key_lt b a"
  using flt_asym[of "snd a" "snd b"] by (auto simp: key_lt_def)

lemma key_lt_negtrans:
  "snd b \<noteq> NaN \<Longrightarrow> \<not> key_lt a b \<Longrightarrow> \<not> key_lt b c \<Longrightarrow> \<not> key_lt a c"
  using flt_negtrans[of "snd a" "snd b" "snd c"] by (auto simp: key_lt_def)

lemma not_worse_key:
  "anomaly_ordered x \<Longrightarrow> anomaly_ordered y \<Longrightarrow>
   not_worse x y \<longleftrightarrow> \<not> key_lt (anomaly_key x) (anomaly_key y)"
  by (auto simp: not_worse_def key_lt_def anomaly_key_def anomaly_ordered_def fle_def)

lemma sorted_not_worse_sort_desc:
  assumes "list_all anomaly_ordered xs"
  shows "sorted_wrt not_worse (sort_desc key_lt anomaly_key xs)"
proof -
  have "sorted_wrt (\<lambda>a b. \<not> key_lt (anomaly_key a) (anomaly_key b))
               (sort_desc key_lt anomaly_key xs)"
  proof (rule sort_desc_sorted[where ok = "\<lambda>k. snd k \<noteq> NaN"])
    show "\<And>a b. key_lt a b \<Longrightarrow> \<not> key_lt b a"
      by (rule key_lt_asym)
    show "\<And>a b c. snd b \<noteq> NaN \<Longrightarrow> \<not> key_lt a b \<Longrightarrow> \<not> key_lt b c \<Longrightarrow> \<not> key_lt a c"
      by (rule key_lt_negtrans)
    show "list_all (\<lambda>y. snd (anomaly_key y) \<noteq> NaN) xs"
      using assms by (simp add: list_all_iff anomaly_ordered_def anomaly_key_def)
  qed
  then show ?thesis
    using assms
    by (rule_tac sorted_wrt_mono_rel[rotated]) (auto simp: list_all_iff not_worse_key)
qed

lemma update_anomaly_records_ok:
  assumes "anomalies_ok s" and "anomaly_ordered a"
  shows "anomalies_ok (fst (update_anomaly_records s a))"
proof -
  have ord: "list_all anomaly_ordered (anomaly_records s @ [a])"
    "list_all anomaly_ordered (butlast (anomaly_records s) @ [a])"
    using assms by (auto simp: anomalies_ok_def list_all_iff dest: in_set_butlastD)
  show ?thesis
    using assms(1) sorted_not_worse_sort_desc[OF ord(1)] sorted_not_worse_sort_desc[OF ord(2)]
      ord
    by (auto simp: update_anomaly_records_def anomalies_ok_def Let_def list_all_iff)
qed

lemma update_anomaly_records_limit [simp]:
  "anomaly_limit (fst (update_anomaly_records s a)) = anomaly_limit s"
  by (subst update_anomaly_records_only) simp

lemma detect_ok:
  assumes "anomalies_ok s" and "rvn \<noteq> NaN"
  shows "anomalies_ok (fst (detect_and_update_anomalies s r rvn q p d))"
proof -
  have "anomalies_ok (fst (update_anomaly_records s
      \<lparr>a_record = r, a_revenue = rvn, anomaly_score = sc, anomaly_reasons = rs\<rparr>))" for sc rs
    using assms by (intro update_anomaly_records_ok) (simp_all add: anomaly_ordered_def)
  then show ?thesis
    using assms(1)
    by (auto simp: detect_and_update_anomalies_def split: sum.splits prod.splits)
qed

lemma anomalies_ok_cong:
  "anomaly_records s' = anomaly_records s \<Longrightarrow> anomaly_limit s' = anomaly_limit s \<Longrightarrow>
   anomalies_ok s' = anomalies_ok s"
  by (simp add: anomalies_ok_def)

lemma process_record_ok:
  assumes "anomalies_ok s" and "revenue_ordered r"
  shows "anomalies_ok (process_record s r) \<and> anomaly_limit (process_record s r) = anomaly_limit s"
proof (cases "required_fields r")
  case None
  then show ?thesis using assms by (simp add: process_record_cases)
next
  case (Some a)
  obtain q p d t rvn where a: "a = (q, p, d, t, rvn)" by (metis prod_cases5)
  have rvn: "rvn \<noteq> NaN"
    using Some a assms(2)
    by (auto simp: required_fields_def revenue_ordered_def split: option.splits)
  let ?s2 = "update_buckets (update_statistics s rvn q p) r rvn q d t"
  let ?s3 = "fst (detect_and_update_anomalies ?s2 r rvn q p d)"
  have "anomalies_ok ?s2" using assms anomalies_ok_cong[of ?s2 s] by simp
  then have ok3: "anomalies_ok ?s3" using rvn by (rule detect_ok)
  have "anomalies_ok (?s3\<lparr>records_processed := records_processed s + 1\<rparr>)"
    using ok3 anomalies_ok_cong[of "?s3\<lparr>records_processed := records_processed s + 1\<rparr>" ?s3]
    by simp
  then show ?thesis
    using Some a ok3 by (simp add: process_record_cases Let_def)
qed

lemma process_chunk_ok:
  assumes "anomalies_ok s" and "list_all revenue_ordered recs"
  shows "anomalies_ok (process_chunk s recs) \<and>
         anomaly_limit (process_chunk s recs) = anomaly_limit s"
  using assms unfolding process_chunk_def
proof (induction recs arbitrary: s)
  case Nil
  then show ?case by simp
next
  case (Cons r recs)
  then show ?case using process_record_ok[of s r] by simp
qed

lemma sorted_last_worst:
  assumes "sorted_wrt not_worse xs" and "list_all anomaly_ordered xs" and "b \<in> set xs"
  shows "not_worse b (last xs)"
proof (cases xs rule: rev_cases)
  case Nil
  then show ?thesis using assms by simp
next
  case (snoc ys y)
  have "not_worse y y"
    using assms(2) snoc by (simp add: not_worse_def anomaly_ordered_def fle_def)
  then show ?thesis using assms snoc by (auto simp: sorted_wrt_append)
qed

lemma mset_replace_last:
  "xs \<noteq> [] \<Longrightarrow> mset (butlast xs @ [a]) = mset xs - {#last xs#} + {#a#}"
  by (cases xs rule: rev_cases) simp_all

text \<open>
  C5, as amended. With a positive anomaly limit, and as long as no ingested record and no
  candidate has a revenue that is NaN: after any sequence of records has been ingested (so
  at every point of an ingestion and after it) the anomaly list has at most
  \<^verbatim>\<open>anomaly_limit\<close> entries and is sorted by score descending, then revenue descending.
  While there is room a candidate is added and the list sorted again. When the list is
  full its last entry is the worst-ranked one, and a candidate replaces that entry, the
  list staying sorted, if and only if the candidate is strictly better than it by score,
  then revenue; otherwise the list is unchanged.
\<close>

theorem anomaly_list_invariant:
  assumes "0 < a_limit" and "DataAggregator_init a_limit t_limit = Inr s0"
    and "list_all revenue_ordered recs" and "anomaly_ordered a"
  shows "let s = process_chunk s0 recs; xs = anomaly_records s in
     int (length xs) \<le> a_limit \<and> sorted_wrt not_worse xs \<and>
     (int (length xs) < a_limit \<longrightarrow>
        update_anomaly_records s a =
          (s\<lparr>anomaly_records := sort_desc key_lt anomaly_key (xs @ [a])\<rparr>, None) \<and>
        sorted_wrt not_worse (sort_desc key_lt anomaly_key (xs @ [a]))) \<and>
     (int (length xs) = a_limit \<longrightarrow>
        (\<forall>b\<in>set xs. not_worse b (last xs)) \<and>
        (strictly_better a (last xs) \<longrightarrow>
           (\<exists>s'. update_anomaly_records s a = (s', None) \<and>
                 mset (anomaly_records s') = mset xs - {#last xs#} + {#a#} \<and>
                 sorted_wrt not_worse (anomaly_records s'))) \<and>
        (\<not> strictly_better a (last xs) \<longrightarrow> update_anomaly_records s a = (s, None)))"
proof -
  let ?s = "process_chunk s0 recs"
  let ?xs = "anomaly_records ?s"
  have s0: "s0 = reset_aggregations a_limit t_limit"
    using assms(2) by (simp add: DataAggregator_init_def)
  have "anomalies_ok s0"
    using assms(1) by (simp add: s0 anomalies_ok_def reset_aggregations_def)
  then have ok: "anomalies_ok ?s" and lim: "anomaly_limit ?s = a_limit"
    using process_chunk_ok[of s0 recs] assms(3) by (simp_all add: s0 reset_aggregations_def)
  have len: "int (length ?xs) \<le> a_limit" and srt: "sorted_wrt not_worse ?xs"
    and ord: "list_all anomaly_ordered ?xs"
    using ok lim by (simp_all add: anomalies_ok_def)
  have room: "update_anomaly_records ?s a =
          (?s\<lparr>anomaly_records := sort_desc key_lt anomaly_key (?xs @ [a])\<rparr>, None) \<and>
        sorted_wrt not_worse (sort_desc key_lt anomaly_key (?xs @ [a]))"
    if "int (length ?xs) < a_limit"
    using that lim ord assms(4)
    by (simp add: update_anomaly_records_def sorted_not_worse_sort_desc)
  have full: "(\<forall>b\<in>set ?xs. not_worse b (last ?xs)) \<and>
        (strictly_better a (last ?xs) \<longrightarrow>
           (\<exists>s'. update_anomaly_records ?s a = (s', None) \<and>
                 mset (anomaly_records s') = mset ?xs - {#last ?xs#} + {#a#} \<and>
                 sorted_wrt not_worse (anomaly_records s'))) \<and>
        (\<not> strictly_better a (last ?xs) \<longrightarrow> update_anomaly_records ?s a = (?s, None))"
    if eq: "int (length ?xs) = a_limit"
  proof -
    have ne: "?xs \<noteq> []" using eq assms(1) by auto
    have worst: "\<forall>b\<in>set ?xs. not_worse b (last ?xs)"
      using sorted_last_worst[OF srt ord] by blast
    have upd: "update_anomaly_records ?s a =
        (if strictly_better a (last ?xs)
         then (?s\<lparr>anomaly_records := sort_desc key_lt anomaly_key (butlast ?xs @ [a])\<rparr>, None)
         else (?s, None))"
      using eq lim ne by (simp add: update_anomaly_records_def strictly_better_def Let_def)
    have "list_all anomaly_ordered (butlast ?xs @ [a])"
      using ord assms(4) by (auto simp: list_all_iff dest: in_set_butlastD)
    then have "sorted_wrt not_worse (sort_desc key_lt anomaly_key (butlast ?xs @ [a]))"
      by (rule sorted_not_worse_sort_desc)
    then show ?thesis
      using worst upd mset_replace_last[OF ne, of a] by simp
  qed
  show ?thesis
    unfolding Let_def using len srt room full by blast
qed

lemma process_big_sale:
  "0 < a_limit \<Longrightarrow>
   anomaly_records (process_chunk (reset_aggregations a_limit t_limit) [big_sale]) = [big_anomaly]"
proof -
  assume pos: "0 < a_limit"
  let ?s2 = "update_buckets (update_statistics (reset_aggregations a_limit t_limit) (Finite 180000) 200 (Finite 1000))
        big_sale (Finite 180000) 200 (Finite (1 / 10)) sample_date"
  have rp: "records_processed ?s2 \<le> 100" by (simp add: reset_aggregations_def)
  have s2: "anomaly_records (reset_aggregations a_limit t_limit) = []"
    "anomaly_limit (reset_aggregations a_limit t_limit) = a_limit"
    by (simp_all add: reset_aggregations_def)
  have "detect_and_update_anomalies ?s2 big_sale (Finite 180000) 200 (Finite 1000) (Finite (1 / 10)) =
      (?s2\<lparr>anomaly_records := [big_anomaly]\<rparr>, None)"
    using pos
    by (simp add: detect_and_update_anomalies_def big_sale_score[OF rp] update_anomaly_records_def
        s2 sort_desc_foldr big_anomaly_def)
  then show ?thesis
    by (simp add: process_chunk_def process_record_cases big_sale_required)
qed

theorem anomaly_list_invariant_witness:
  "0 < (1::int) \<and>
   DataAggregator_init 1 10 = Inr (reset_aggregations 1 10) \<and>
   list_all revenue_ordered [big_sale] \<and>
   anomaly_ordered big_anomaly \<and>
   anomaly_ordered (big_anomaly\<lparr>a_revenue := Finite 200000\<rparr>) \<and>
   anomaly_records (process_chunk (reset_aggregations 1 10) [big_sale]) = [big_anomaly] \<and>
   strictly_better (big_anomaly\<lparr>a_revenue := Finite 200000\<rparr>) big_anomaly \<and>
   anomaly_records (fst (update_anomaly_records
      (process_chunk (reset_aggregations 1 10) [big_sale])
      (big_anomaly\<lparr>a_revenue := Finite 200000\<rparr>))) =
     [big_anomaly\<lparr>a_revenue := Finite 200000\<rparr>] \<and>
   \<not> strictly_better big_anomaly big_anomaly \<and>
   update_anomaly_records (process_chunk (reset_aggregations 1 10) [big_sale]) big_anomaly =
     (process_chunk (reset_aggregations 1 10) [big_sale], None) \<and>
   list_all revenue_ordered [] \<and>
   anomaly_records (process_chunk (reset_aggregations 1 10) []) = [] \<and>
   anomaly_records (fst (update_anomaly_records
      (process_chunk (reset_aggregations 1 10) []) big_anomaly)) = [big_anomaly]"
proof -
  let ?s = "process_chunk (reset_aggregations 1 10) [big_sale]"
  have pos: "0 < (1::int)" by simp
  have init: "DataAggregator_init 1 10 = Inr (reset_aggregations 1 10)"
    by (simp add: DataAggregator_init_def)
  have recs: "list_all revenue_ordered [big_sale]"
    by (simp add: revenue_ordered_def big_sale_def)
  have o1: "anomaly_ordered big_anomaly"
    and o2: "anomaly_ordered (big_anomaly\<lparr>a_revenue := Finite 200000\<rparr>)"
    by (simp_all add: anomaly_ordered_def big_anomaly_def)
  have xs: "anomaly_records ?s = [big_anomaly]"
    by (rule process_big_sale) simp
  have b1: "strictly_better (big_anomaly\<lparr>a_revenue := Finite 200000\<rparr>) big_anomaly"
    and b2: "\<not> strictly_better big_anomaly big_anomaly"
    by (simp_all add: strictly_better_def big_anomaly_def)
  note th1 = anomaly_list_invariant[OF pos init recs o2, unfolded Let_def xs]
  note th2 = anomaly_list_invariant[OF pos init recs o1, unfolded Let_def xs]
  have r1: "anomaly_records (fst (update_anomaly_records ?s (big_anomaly\<lparr>a_revenue := Finite 200000\<rparr>)))
      = [big_anomaly\<lparr>a_revenue := Finite 200000\<rparr>]"
    using th1 b1 by auto
  have r2: "update_anomaly_records ?s big_anomaly = (?s, None)"
    using th2 b2 by simp
  have none: "list_all revenue_ordered []"
    by simp
  have ys: "anomaly_records (process_chunk (reset_aggregations 1 10) []) = []"
    by (simp add: process_chunk_def reset_aggregations_def)
  note th3 = anomaly_list_invariant[OF pos init none o1, unfolded Let_def ys]
  have r3: "anomaly_records (fst (update_anomaly_records
      (process_chunk (reset_aggregations 1 10) []) big_anomaly)) = [big_anomaly]"
    using th3 by (simp add: sort_desc_foldr)
  show ?thesis using pos init recs o1 o2 xs b1 b2 r1 r2 none ys r3 by simp
qed

lemma upd_keys:
  "map fst (upd d f k kvs) =
     (if k \<in> set (map fst kvs) then map fst kvs else map fst kvs @ [k])"
  by (induction kvs) force+

lemma slice_to_nonneg: "0 \<le> n \<Longrightarrow> slice_to n xs = take (nat n) xs"
  by (simp add: slice_to_def)

lemma length_slice_to: "length (slice_to n xs) \<le> length xs"
  by (simp add: slice_to_def)

lemma sorted_buckets_sort_desc:
  assumes "list_all bucket_ordered items"
  shows "sorted_wrt (\<lambda>x y. fle (b_revenue (snd y)) (b_revenue (snd x)))
           (sort_desc flt (\<lambda>item. b_revenue (snd item)) items)"
proof -
  let ?f = "\<lambda>item::string option \<times> sales_bucket. b_revenue (snd item)"
  have "sorted_wrt (\<lambda>a b. \<not> flt (?f a) (?f b)) (sort_desc flt ?f items)"
  proof (rule sort_desc_sorted[where ok = "\<lambda>k. k \<noteq> NaN"])
    show "\<And>a b. flt a b \<Longrightarrow> \<not> flt b a"
      by (rule flt_asym)
    show "\<And>a b c. b \<noteq> NaN \<Longrightarrow> \<not> flt a b \<Longrightarrow> \<not> flt b c \<Longrightarrow> \<not> flt a c"
      using flt_negtrans by blast
    show "list_all (\<lambda>y. ?f y \<noteq> NaN) items"
      using assms by (simp add: list_all_iff bucket_ordered_def)
  qed
  then show ?thesis
    using assms
    by (rule_tac sorted_wrt_mono_rel[rotated])
       (auto simp: list_all_iff bucket_ordered_def fle_def)
qed

text \<open>
  C7, as amended. With a top-products limit that is not negative, and as long as no
  product bucket has a revenue that is NaN, the finalized top-products list is the first
  \<^verbatim>\<open>top_products_limit\<close> entries of the product buckets sorted by revenue descending: it
  has at most that many entries, the sorted list holds exactly the entries of the product
  buckets, in descending order of revenue, and entries with equal revenue come in the
  order in which they stand in the product buckets. That order is the order of first
  insertion: an update leaves the keys where they are and puts a new key last.
\<close>

theorem top_products_sorted_truncated:
  assumes "0 \<le> top_products_limit s" and "list_all bucket_ordered (product_sales s)"
  shows "let items = product_sales s;
             ranked = sort_desc flt (\<lambda>item. b_revenue (snd item)) items;
             top = f_top_products (fst (finalize_aggregations s))
         in top = take (nat (top_products_limit s)) ranked \<and>
            int (length top) \<le> top_products_limit s \<and>
            mset ranked = mset items \<and>
            sorted_wrt (\<lambda>x y. fle (b_revenue (snd y)) (b_revenue (snd x))) ranked \<and>
            sorted_wrt (\<lambda>x y. fle (b_revenue (snd y)) (b_revenue (snd x))) top \<and>
            (\<forall>v. filter (\<lambda>item. b_revenue (snd item) = v) ranked =
                 filter (\<lambda>item. b_revenue (snd item) = v) items) \<and>
            map fst (product_sales (update_buckets s r rvn q d t)) =
              (if product_name r \<in> set (map fst items) then map fst items
               else map fst items @ [product_name r])"
proof -
  let ?f = "\<lambda>item::string option \<times> sales_bucket. b_revenue (snd item)"
  let ?ranked = "sort_desc flt ?f (product_sales s)"
  have top: "f_top_products (fst (finalize_aggregations s)) =
      take (nat (top_products_limit s)) ?ranked"
    using assms(1) by (simp add: finalize_aggregations_def slice_to_nonneg)
  have len: "int (length (take (nat (top_products_limit s)) ?ranked)) \<le> top_products_limit s"
    using assms(1) by simp
  have srt: "sorted_wrt (\<lambda>x y. fle (?f y) (?f x)) ?ranked"
    using assms(2) by (rule sorted_buckets_sort_desc)
  have srt_top: "sorted_wrt (\<lambda>x y. fle (?f y) (?f x)) (take (nat (top_products_limit s)) ?ranked)"
    using srt by (rule sorted_wrt_take)
  have stable: "\<forall>v. filter (\<lambda>item. ?f item = v) ?ranked =
      filter (\<lambda>item. ?f item = v) (product_sales s)"
    by (simp add: sort_desc_stable)
  have keys: "map fst (product_sales (update_buckets s r rvn q d t)) =
              (if product_name r \<in> set (map fst (product_sales s)) then map fst (product_sales s)
               else map fst (product_sales s) @ [product_name r])"
    by (simp add: update_buckets_def upd_keys)
  show ?thesis
    unfolding Let_def top using len srt srt_top stable keys by simp
qed

theorem top_products_sorted_truncated_witness:
  "0 \<le> top_products_limit tie_state \<and>
   list_all bucket_ordered (product_sales tie_state) \<and>
   f_top_products (fst (finalize_aggregations tie_state)) =
     [(Some ''B'', \<lparr>b_revenue = Finite 300, b_quantity = 2\<rparr>),
      (Some ''D'', \<lparr>b_revenue = Finite 300, b_quantity = 4\<rparr>),
      (Some ''A'', \<lparr>b_revenue = Finite 100, b_quantity = 1\<rparr>)]"
proof -
  have lim: "top_products_limit tie_state = 3"
    by (simp add: tie_state_def reset_aggregations_def)
  have lim0: "0 \<le> top_products_limit tie_state"
    by (simp add: lim)
  have ord: "list_all bucket_ordered (product_sales tie_state)"
    by (simp add: tie_state_def bucket_ordered_def)
  have ranked: "sort_desc flt (\<lambda>item. b_revenue (snd item)) (product_sales tie_state) =
     [(Some ''B'', \<lparr>b_revenue = Finite 300, b_quantity = 2\<rparr>),
      (Some ''D'', \<lparr>b_revenue = Finite 300, b_quantity = 4\<rparr>),
      (Some ''A'', \<lparr>b_revenue = Finite 100, b_quantity = 1\<rparr>),
      (Some ''C'', \<lparr>b_revenue = Finite 100, b_quantity = 3\<rparr>)]"
    by (simp add: tie_state_def sort_desc_foldr)
  have n3: "nat 3 = Suc (Suc (Suc 0))" by simp
  have top: "f_top_products (fst (finalize_aggregations tie_state)) =
     [(Some ''B'', \<lparr>b_revenue = Finite 300, b_quantity = 2\<rparr>),
      (Some ''D'', \<lparr>b_revenue = Finite 300, b_quantity = 4\<rparr>),
      (Some ''A'', \<lparr>b_revenue = Finite 100, b_quantity = 1\<rparr>)]"
    using top_products_sorted_truncated[OF lim0 ord, unfolded Let_def ranked lim]
    by (simp add: n3)
  show ?thesis
    using lim0 ord top by (intro conjI)
qed

subsection \<open>Where the ranking fails\<close>

text \<open>
  C5, as stated, fails on a revenue that is NaN and on a limit that is not positive.
  The three rows of \<open>nan_revenue_rows\<close> are cleaned to the three records of
  \<open>nan_revenue_sales\<close>, each a candidate of score 3, with the revenues 500, NaN and 1000.
  With the limit 5 the anomaly list ends as 500, NaN, 1000: no comparison with NaN holds,
  so the sort moves nothing, and the third entry is strictly better than the first. With
  the limit 2 the list is full at 500, NaN, and the candidate of revenue 1000 does not
  replace anything, because it is compared with the last entry only. With the limit 0 the
  first candidate raises \<^verbatim>\<open>IndexError\<close> (\<^verbatim>\<open>anomaly_records[-1]\<close> on an empty list); with
  the limit -1 likewise, and the empty list has more than -1 entries.
\<close>

theorem anomaly_list_unordered_counterexample:
  "fst (clean_chunk sample_builtins cleaner_init nan_revenue_rows) = nan_revenue_sales \<and>
   map anomaly_key
     (anomaly_records (p_aggregator
        (process_chunks sample_builtins (sample_pipeline 1000) nan_revenue_rows))) =
     [(3, Finite 500), (3, NaN), (3, Finite 1000)] \<and>
   \<not> sorted_wrt not_worse
     (anomaly_records (p_aggregator
        (process_chunks sample_builtins (sample_pipeline 1000) nan_revenue_rows))) \<and>
   strictly_better
     (anomaly_records (p_aggregator
        (process_chunks sample_builtins (sample_pipeline 1000) nan_revenue_rows)) ! 2)
     (anomaly_records (p_aggregator
        (process_chunks sample_builtins (sample_pipeline 1000) nan_revenue_rows)) ! 0) \<and>
   map anomaly_key
     (anomaly_records (process_chunk (reset_aggregations 2 10) nan_revenue_sales)) =
     [(3, Finite 500), (3, NaN)] \<and>
   snd (update_anomaly_records (reset_aggregations 0 10) big_anomaly) = Some IndexError \<and>
   anomaly_records (process_chunk (reset_aggregations (- 1) 10) [big_sale]) = [] \<and>
   \<not> int (length (anomaly_records (process_chunk (reset_aggregations (- 1) 10) [big_sale])))
       \<le> anomaly_limit (process_chunk (reset_aggregations (- 1) 10) [big_sale])"
  by code_simp

text \<open>
  C7, as stated, fails on a revenue that is NaN and on a negative limit. The three rows of
  \<open>nan_price_rows\<close> are cleaned to the three records of \<open>nan_price_sales\<close>, of the products
  A, B and C with the revenues 10, NaN and 20. Finalizing raises nothing and leaves the top
  products in that order, 10 before 20; with the limit 1 the list is the product A alone,
  of revenue 10. With the limit -1 the slice \<^verbatim>\<open>[:-1]\<close> drops the last entry and keeps the
  others: of three products two are kept, which is more than -1.
\<close>

theorem top_products_unordered_counterexample:
  "fst (clean_chunk sample_builtins cleaner_init nan_price_rows) = nan_price_sales \<and>
   snd (finalize_aggregations (p_aggregator
        (process_chunks sample_builtins (sample_pipeline 1000) nan_price_rows))) = None \<and>
   f_top_products (fst (finalize_aggregations (p_aggregator
        (process_chunks sample_builtins (sample_pipeline 1000) nan_price_rows)))) =
     [(Some ''A'', \<lparr>b_revenue = Finite 10, b_quantity = 1\<rparr>),
      (Some ''B'', \<lparr>b_revenue = NaN, b_quantity = 1\<rparr>),
      (Some ''C'', \<lparr>b_revenue = Finite 20, b_quantity = 1\<rparr>)] \<and>
   flt (b_revenue (snd (f_top_products (fst (finalize_aggregations (p_aggregator
          (process_chunks sample_builtins (sample_pipeline 1000) nan_price_rows)))) ! 0)))
       (b_revenue (snd (f_top_products (fst (finalize_aggregations (p_aggregator
          (process_chunks sample_builtins (sample_pipeline 1000) nan_price_rows)))) ! 2))) \<and>
   f_top_products (fst (finalize_aggregations
        (process_chunk (reset_aggregations 5 1) nan_price_sales))) =
     [(Some ''A'', \<lparr>b_revenue = Finite 10, b_quantity = 1\<rparr>)] \<and>
   f_top_products (fst (finalize_aggregations
        (process_chunk (reset_aggregations 5 (- 1))
           [sample_sale, priced_sale ''A'' (Finite 10) (Finite 0),
            priced_sale ''C'' (Finite 20) (Finite 0)]))) =
     [(Some ''Laptop Pro 15'', \<lparr>b_revenue = Finite 9000, b_quantity = 10\<rparr>),
      (Some ''C'', \<lparr>b_revenue = Finite 20, b_quantity = 1\<rparr>)] \<and>
   \<not> int (length (f_top_products (fst (finalize_aggregations
        (process_chunk (reset_aggregations 5 (- 1))
           [sample_sale, priced_sale ''A'' (Finite 10) (Finite 0),
            priced_sale ''C'' (Finite 20) (Finite 0)])))))
       \<le> top_products_limit (process_chunk (reset_aggregations 5 (- 1))
           [sample_sale, priced_sale ''A'' (Finite 10) (Finite 0),
            priced_sale ''C'' (Finite 20) (Finite 0)])"
  by code_simp

section \<open>Bounded state\<close>

lemma upd_distinct: "distinct (map fst kvs) \<Longrightarrow> distinct (map fst (upd d f k kvs))"
  by (simp add: upd_keys)

lemma upd_set: "fst ` set (upd d f k kvs) = insert k (fst ` set kvs)"
  using upd_keys[of d f k kvs, THEN arg_cong, of set] by auto

lemma keys_in_upd:
  assumes "keys_in kvs ks" and "k \<in> set ks'" and "set ks \<subseteq> set ks'"
  shows "keys_in (upd d f k kvs) ks'"
  using assms by (auto simp: keys_in_def upd_distinct upd_set)

lemma keys_in_mono:
  assumes "keys_in kvs ks" and "set ks \<subseteq> set ks'"
  shows "keys_in kvs ks'"
  using assms by (auto simp: keys_in_def)

lemma distinct_keys_snoc:
  "set (distinct_months recs) \<subseteq> set (distinct_months (recs @ [r]))"
  "set (distinct_products recs) \<subseteq> set (distinct_products (recs @ [r]))"
  "set (distinct_regions recs) \<subseteq> set (distinct_regions (recs @ [r]))"
  "set (distinct_categories recs) \<subseteq> set (distinct_categories (recs @ [r]))"
  "product_name r \<in> set (distinct_products (recs @ [r]))"
  "region r \<in> set (distinct_regions (recs @ [r]))"
  "category r \<in> set (distinct_categories (recs @ [r]))"
  "sale_date r = Some t \<Longrightarrow> strftime_Ym t \<in> set (distinct_months (recs @ [r]))"
  by (auto simp: distinct_months_def distinct_products_def distinct_regions_def
      distinct_categories_def List.map_filter_def month_of_def)

lemma process_record_skip:
  "required_fields r = None \<Longrightarrow> process_record s r = s"
  by (simp add: process_record_cases)

lemma process_record_fields:
  assumes "required_fields r = Some (q, p, d, t, rvn)"
  shows "monthly_sales (process_record s r) = monthly_sales (update_buckets s r rvn q d t)"
    and "product_sales (process_record s r) = product_sales (update_buckets s r rvn q d t)"
    and "region_sales (process_record s r) = region_sales (update_buckets s r rvn q d t)"
    and "category_discounts (process_record s r) =
           category_discounts (update_buckets s r rvn q d t)"
    and "revenue_stats (process_record s r) = update_stat fadd (revenue_stats s) rvn"
    and "quantity_stats (process_record s r) = update_stat (+) (quantity_stats s) q"
    and "price_stats (process_record s r) = update_stat fadd (price_stats s) p"
    and "anomaly_limit (process_record s r) = anomaly_limit s"
    and "top_products_limit (process_record s r) = top_products_limit s"
    and "anomaly_records (process_record s r) =
       anomaly_records (fst (detect_and_update_anomalies
          (update_buckets (update_statistics s rvn q p) r rvn q d t) r rvn q p d))"
  using assms
  by (simp_all add: process_record_cases Let_def update_buckets_def update_statistics_def)

lemma keys_within_step:
  assumes "keys_within s recs"
  shows "keys_within (process_record s r) (recs @ [r])"
proof -
  have am: "keys_in (monthly_sales s) (distinct_months recs)"
    and ap: "keys_in (product_sales s) (distinct_products recs)"
    and ar: "keys_in (region_sales s) (distinct_regions recs)"
    and ac: "keys_in (category_discounts s) (distinct_categories recs)"
    using assms by (simp_all add: keys_within_def)
  show ?thesis
  proof (cases "required_fields r")
    case None
    have "keys_within s (recs @ [r])"
      unfolding keys_within_def
      using keys_in_mono[OF am distinct_keys_snoc(1)[of recs r]]
        keys_in_mono[OF ap distinct_keys_snoc(2)[of recs r]]
        keys_in_mono[OF ar distinct_keys_snoc(3)[of recs r]]
        keys_in_mono[OF ac distinct_keys_snoc(4)[of recs r]]
      by (intro conjI)
    then show ?thesis
      by (simp only: process_record_skip[OF None])
  next
    case (Some a)
    obtain q p d t rvn where a: "a = (q, p, d, t, rvn)" by (metis prod_cases5)
    have t: "sale_date r = Some t"
      using Some a by (auto simp: required_fields_def split: option.splits)
    note f = process_record_fields(1-4)[OF Some[unfolded a], of s]
    have m: "keys_in (monthly_sales (process_record s r)) (distinct_months (recs @ [r]))"
      unfolding f
      using keys_in_upd[OF am distinct_keys_snoc(8)[OF t, of recs] distinct_keys_snoc(1)[of recs r]]
      by (simp add: update_buckets_def)
    have p: "keys_in (product_sales (process_record s r)) (distinct_products (recs @ [r]))"
      unfolding f
      using keys_in_upd[OF ap distinct_keys_snoc(5)[of r recs] distinct_keys_snoc(2)[of recs r]]
      by (simp add: update_buckets_def)
    have g: "keys_in (region_sales (process_record s r)) (distinct_regions (recs @ [r]))"
      unfolding f
      using keys_in_upd[OF ar distinct_keys_snoc(6)[of r recs] distinct_keys_snoc(3)[of recs r]]
      by (simp add: update_buckets_def)
    have c: "keys_in (category_discounts (process_record s r)) (distinct_categories (recs @ [r]))"
      unfolding f
      using keys_in_upd[OF ac distinct_keys_snoc(7)[of r recs] distinct_keys_snoc(4)[of recs r]]
      by (simp add: update_buckets_def)
    show ?thesis
      unfolding keys_within_def using m p g c by (intro conjI)
  qed
qed

lemma update_anomaly_records_length:
  "length (anomaly_records s) \<le> nat (anomaly_limit s) \<Longrightarrow>
   length (anomaly_records (fst (update_anomaly_records s a))) \<le> nat (anomaly_limit s)"
  by (auto simp: update_anomaly_records_def Let_def)

lemma detect_length:
  "length (anomaly_records s) \<le> nat (anomaly_limit s) \<Longrightarrow>
   length (anomaly_records (fst (detect_and_update_anomalies s r rvn q p d)))
     \<le> nat (anomaly_limit s)"
  using update_anomaly_records_length
  by (auto simp: detect_and_update_anomalies_def split: sum.splits prod.splits)

lemma update_stat_capped:
  "length (st_values st) \<le> 1000 \<Longrightarrow> length (st_values (update_stat add st x)) \<le> 1000"
  by (simp add: update_stat_def)

lemma samples_capped_step:
  assumes "samples_capped s"
  shows "samples_capped (process_record s r)"
proof (cases "required_fields r")
  case None
  then show ?thesis using assms by (simp add: process_record_skip)
next
  case (Some a)
  obtain q p d t rvn where a: "a = (q, p, d, t, rvn)" by (metis prod_cases5)
  let ?s2 = "update_buckets (update_statistics s rvn q p) r rvn q d t"
  have "length (anomaly_records ?s2) \<le> nat (anomaly_limit ?s2)"
    using assms by (simp add: samples_capped_def)
  then have "length (anomaly_records (fst (detect_and_update_anomalies ?s2 r rvn q p d)))
     \<le> nat (anomaly_limit s)"
    using detect_length[of ?s2 r rvn q p d] by simp
  then show ?thesis
    using assms
    by (simp add: samples_capped_def update_stat_capped
        process_record_fields(5-10)[OF Some[unfolded a]])
qed

lemma process_chunk_snoc:
  "process_chunk s (recs @ [r]) = process_record (process_chunk s recs) r"
  by (simp add: process_chunk_def)

lemma process_chunk_bounded:
  assumes "keys_within s []" and "samples_capped s"
  shows "keys_within (process_chunk s recs) recs \<and> samples_capped (process_chunk s recs) \<and>
         anomaly_limit (process_chunk s recs) = anomaly_limit s \<and>
         top_products_limit (process_chunk s recs) = top_products_limit s"
proof (induction recs rule: rev_induct)
  case Nil
  then show ?case using assms by (simp add: process_chunk_def)
next
  case (snoc r recs)
  have "anomaly_limit (process_record (process_chunk s recs) r) = anomaly_limit (process_chunk s recs)
      \<and> top_products_limit (process_record (process_chunk s recs) r) =
        top_products_limit (process_chunk s recs)"
    by (cases "required_fields r")
       (auto simp: process_record_skip process_record_fields(8,9))
  then show ?case
    using snoc keys_within_step[of "process_chunk s recs" recs r]
      samples_capped_step[of "process_chunk s recs" r]
    by (simp add: process_chunk_snoc)
qed

lemma keys_in_length:
  assumes "keys_in kvs (remdups ks)"
  shows "length kvs \<le> length (remdups ks)"
proof -
  have "length kvs = card (set (map fst kvs))"
    using assms distinct_card[of "map fst kvs"] by (simp add: keys_in_def)
  also have "\<dots> \<le> card (set (remdups ks))"
    using assms by (intro card_mono) (simp_all add: keys_in_def)
  also have "\<dots> = length (remdups ks)"
    by (simp add: length_remdups_card_conv)
  finally show ?thesis .
qed

text \<open>
  C2. After any sequence of records has been ingested by a freshly constructed aggregator,
  each bucket store has at most one entry per distinct month, product, region or category of
  the records, the anomaly list has at most \<^verbatim>\<open>anomaly_limit\<close> entries (none when the
  limit is not positive) and each of the three samples at most 1000 values. So the number
  of retained entries is at most the number of distinct months, products, regions and
  categories plus the anomaly limit plus 3000, whatever the number of records; and the
  finalized top-products list has at most as many entries as there are distinct products,
  and at most \<^verbatim>\<open>top_products_limit\<close> when that limit is not negative.
\<close>

theorem retained_state_bounded:
  assumes "DataAggregator_init a_limit t_limit = Inr s0"
  shows "let s = process_chunk s0 recs in
     length (monthly_sales s) \<le> length (distinct_months recs) \<and>
     length (product_sales s) \<le> length (distinct_products recs) \<and>
     length (region_sales s) \<le> length (distinct_regions recs) \<and>
     length (category_discounts s) \<le> length (distinct_categories recs) \<and>
     length (anomaly_records s) \<le> nat a_limit \<and>
     length (st_values (revenue_stats s)) \<le> 1000 \<and>
     length (st_values (quantity_stats s)) \<le> 1000 \<and>
     length (st_values (price_stats s)) \<le> 1000 \<and>
     state_size s \<le> length (distinct_months recs) + length (distinct_products recs) +
       length (distinct_regions recs) + length (distinct_categories recs) + nat a_limit + 3000 \<and>
     length (f_top_products (fst (finalize_aggregations s))) \<le> length (distinct_products recs) \<and>
     (0 \<le> t_limit \<longrightarrow> length (f_top_products (fst (finalize_aggregations s))) \<le> nat t_limit)"
proof -
  let ?s = "process_chunk s0 recs"
  have s0: "s0 = reset_aggregations a_limit t_limit"
    using assms by (simp add: DataAggregator_init_def)
  have "keys_within s0 []" "samples_capped s0"
    by (simp_all add: s0 keys_within_def keys_in_def samples_capped_def reset_aggregations_def
        stat_init_def)
  then have kw: "keys_within ?s recs" and sc: "samples_capped ?s"
    and lim: "anomaly_limit ?s = a_limit" and tl: "top_products_limit ?s = t_limit"
    using process_chunk_bounded[of s0 recs] by (simp_all add: s0 reset_aggregations_def)
  have m: "length (monthly_sales ?s) \<le> length (distinct_months recs)"
    and p: "length (product_sales ?s) \<le> length (distinct_products recs)"
    and r: "length (region_sales ?s) \<le> length (distinct_regions recs)"
    and c: "length (category_discounts ?s) \<le> length (distinct_categories recs)"
    using kw
      keys_in_length[of "monthly_sales ?s" "List.map_filter month_of recs"]
      keys_in_length[of "product_sales ?s" "map product_name recs"]
      keys_in_length[of "region_sales ?s" "map region recs"]
      keys_in_length[of "category_discounts ?s" "map category recs"]
    unfolding keys_within_def distinct_months_def distinct_products_def
        distinct_regions_def distinct_categories_def
    by blast+
  have a: "length (anomaly_records ?s) \<le> nat a_limit"
    and v: "length (st_values (revenue_stats ?s)) \<le> 1000"
      "length (st_values (quantity_stats ?s)) \<le> 1000"
      "length (st_values (price_stats ?s)) \<le> 1000"
    using sc lim by (simp_all add: samples_capped_def)
  have top1: "length (f_top_products (fst (finalize_aggregations ?s))) \<le> length (distinct_products recs)"
    using p length_slice_to[of "top_products_limit ?s"
        "sort_desc flt (\<lambda>item. b_revenue (snd item)) (product_sales ?s)"]
    by (simp add: finalize_aggregations_def)
  have top2: "length (f_top_products (fst (finalize_aggregations ?s))) \<le> nat t_limit" if "0 \<le> t_limit"
    using that by (simp add: finalize_aggregations_def slice_to_nonneg tl)
  have sz: "state_size ?s \<le> length (distinct_months recs) + length (distinct_products recs) +
       length (distinct_regions recs) + length (distinct_categories recs) + nat a_limit + 3000"
    using m p r c a v by (simp add: state_size_def)
  show ?thesis
    unfolding Let_def using m p r c a v sz top1 top2 by blast
qed

theorem retained_state_bounded_witness:
  "DataAggregator_init 5 10 = Inr (reset_aggregations 5 10) \<and>
   distinct_months [sample_sale, big_sale, sample_sale, big_sale] = [(2024, 1)] \<and>
   distinct_products [sample_sale, big_sale, sample_sale, big_sale] = [Some ''Laptop Pro 15''] \<and>
   distinct_regions [sample_sale, big_sale, sample_sale, big_sale] = [Some ''North''] \<and>
   distinct_categories [sample_sale, big_sale, sample_sale, big_sale] = [Some ''Electronics''] \<and>
   state_size (process_chunk (reset_aggregations 5 10)
      [sample_sale, big_sale, sample_sale, big_sale]) \<le> 3009 \<and>
   length (f_top_products (fst (finalize_aggregations (process_chunk (reset_aggregations 5 10)
      [sample_sale, big_sale, sample_sale, big_sale])))) \<le> 1"
proof -
  have init: "DataAggregator_init 5 10 = Inr (reset_aggregations 5 10)"
    by (simp add: DataAggregator_init_def)
  have d: "distinct_months [sample_sale, big_sale, sample_sale, big_sale] = [(2024, 1)]"
    "distinct_products [sample_sale, big_sale, sample_sale, big_sale] = [Some ''Laptop Pro 15'']"
    "distinct_regions [sample_sale, big_sale, sample_sale, big_sale] = [Some ''North'']"
    "distinct_categories [sample_sale, big_sale, sample_sale, big_sale] = [Some ''Electronics'']"
    by (simp_all add: distinct_months_def distinct_products_def distinct_regions_def
        distinct_categories_def List.map_filter_def month_of_def sample_sale_def big_sale_def
        strftime_Ym_def sample_date_def)
  note th = retained_state_bounded[OF init,
      where recs = "[sample_sale, big_sale, sample_sale, big_sale]", unfolded Let_def d]
  have sz: "state_size (process_chunk (reset_aggregations 5 10)
      [sample_sale, big_sale, sample_sale, big_sale]) \<le> 3009"
    using th by simp
  have tp: "length (f_top_products (fst (finalize_aggregations (process_chunk (reset_aggregations 5 10)
      [sample_sale, big_sale, sample_sale, big_sale])))) \<le> 1"
    using th by simp
  show ?thesis
    using init d sz tp by (intro conjI)
qed

end
